theory Spec2Isabelle
  imports Main "HOL-Library.Word" "HOL-Library.AList"
begin

text \<open>
  The gateway of cdata-mcp-gateway (class \<open>StreamableMCPGateway\<close>): it relays JSON-RPC
  messages between HTTP clients and child processes that speak newline-delimited JSON
  on stdin and stdout. The theory models the state of the gateway and its callbacks as
  functions on that state, an event loop that calls them one at a time, and proves what
  the specification says about sessions, framing, correlation of replies, timeouts and
  the SSE sink.
\<close>

section \<open>JavaScript strings and buffers\<close>

text \<open>
  A JavaScript string is a sequence of UTF-16 code units; a Node.js \<open>Buffer\<close> is a
  sequence of bytes. String literals of the source are ASCII and are written \<open>js ''...''\<close>.
\<close>

type_synonym jsstring = "16 word list"

type_synonym buffer = "8 word list"

definition js :: "string \<Rightarrow> jsstring" where
  "js cs = map of_char cs"

definition nl :: "16 word" where
  "nl = 0x0A"

text \<open>
  \<open>Buffer.prototype.toString()\<close> (the default encoding is UTF-8): a well-formed
  sequence gives its code point, written as one code unit or as a surrogate pair; every
  maximal ill-formed part, and a sequence cut off by the end of the buffer, gives U+FFFD.
\<close>

definition utf16 :: "nat \<Rightarrow> jsstring" where
  "utf16 cp =
     (if cp < 0x10000 then [of_nat cp]
      else [of_nat (0xD800 + (cp - 0x10000) div 0x400),
            of_nat (0xDC00 + (cp - 0x10000) mod 0x400)])"

definition cont :: "8 word \<Rightarrow> bool" where
  "cont b = (0x80 \<le> b \<and> b \<le> 0xBF)"

definition second_ok :: "8 word \<Rightarrow> 8 word \<Rightarrow> bool" where
  "second_ok b c =
     ((if b = 0xE0 then 0xA0 else if b = 0xF0 then 0x90 else 0x80) \<le> c \<and>
      c \<le> (if b = 0xED then 0x9F else if b = 0xF4 then 0x8F else 0xBF))"

fun toString :: "buffer \<Rightarrow> jsstring" where
  "toString [] = []"
| "toString (b # bs) =
     (if b < 0x80 then of_nat (unat b) # toString bs
      else if 0xC2 \<le> b \<and> b \<le> 0xDF then
        (case bs of
           [] \<Rightarrow> [0xFFFD]
         | c # cs \<Rightarrow>
             if cont c
             then utf16 ((unat b - 0xC0) * 0x40 + (unat c - 0x80)) @ toString cs
             else 0xFFFD # toString bs)
      else if 0xE0 \<le> b \<and> b \<le> 0xEF then
        (case bs of
           [] \<Rightarrow> [0xFFFD]
         | c # cs \<Rightarrow>
             if second_ok b c then
               (case cs of
                  [] \<Rightarrow> [0xFFFD]
                | d # ds \<Rightarrow>
                    if cont d
                    then utf16 ((unat b - 0xE0) * 0x1000 + (unat c - 0x80) * 0x40
                                + (unat d - 0x80)) @ toString ds
                    else 0xFFFD # toString cs)
             else 0xFFFD # toString bs)
      else if 0xF0 \<le> b \<and> b \<le> 0xF4 then
        (case bs of
           [] \<Rightarrow> [0xFFFD]
         | c # cs \<Rightarrow>
             if second_ok b c then
               (case cs of
                  [] \<Rightarrow> [0xFFFD]
                | d # ds \<Rightarrow>
                    if cont d then
                      (case ds of
                         [] \<Rightarrow> [0xFFFD]
                       | e # es \<Rightarrow>
                           if cont e
                           then utf16 ((unat b - 0xF0) * 0x40000 + (unat c - 0x80) * 0x1000
                                       + (unat d - 0x80) * 0x40 + (unat e - 0x80))
                                @ toString es
                           else 0xFFFD # toString ds)
                    else 0xFFFD # toString cs)
             else 0xFFFD # toString bs)
      else 0xFFFD # toString bs)"

text \<open>\<open>String.prototype.split('\n')\<close>: the pieces between the newlines, never empty.\<close>

fun split_nl :: "jsstring \<Rightarrow> jsstring list" where
  "split_nl [] = [[]]"
| "split_nl (c # cs) =
     (if c = nl then [] # split_nl cs
      else (case split_nl cs of [] \<Rightarrow> [[c]] | l # ls \<Rightarrow> (c # l) # ls))"

text \<open>
  \<open>String.prototype.trim()\<close> removes the white space and line terminators of
  ECMAScript at both ends.
\<close>

definition is_space :: "16 word \<Rightarrow> bool" where
  "is_space c =
     (c \<in> set [0x09, 0x0A, 0x0B, 0x0C, 0x0D, 0x20, 0xA0, 0x1680, 0x2028, 0x2029,
                0x202F, 0x205F, 0x3000, 0xFEFF]
      \<or> (0x2000 \<le> c \<and> c \<le> 0x200A))"

definition trim :: "jsstring \<Rightarrow> jsstring" where
  "trim l = rev (dropWhile is_space (rev (dropWhile is_space l)))"

text \<open>\<open>lines.pop() || ''\<close>.\<close>

definition pop_or_empty :: "jsstring list \<Rightarrow> jsstring" where
  "pop_or_empty ls = (if ls = [] then [] else last ls)"

section \<open>The data model\<close>

datatype json =
    JNull
  | JBool bool
  | JNum int
  | JStr jsstring
  | JArr "json list"
  | JObj "(jsstring \<times> json) list"

datatype rpc_id = IdStr jsstring | IdNum int

text \<open>
  \<open>interface JSONRPCMessage\<close>. An absent optional field is \<open>None\<close>
  (\<open>undefined\<close> in the source).
\<close>

record JSONRPCMessage =
  jsonrpc :: jsstring
  id' :: "rpc_id option"
  method' :: "jsstring option"
  params :: "json option"
  result :: "json option"
  error :: "json option"

text \<open>
  \<open>interface Session\<close>. A Session is an object: it lives in the heap of the state
  below and is named by its reference. \<open>process\<close> is the handle of the child it owns,
  \<open>sseResponse\<close> the handle of an Express response, and a resolver in
  \<open>pendingRequests\<close> is named by the handle of the response its promise answers. The
  table is a JavaScript \<open>Map\<close>, kept as an association list in insertion order.
\<close>

record Session =
  session_id :: jsstring
  process :: nat
  messageBuffer :: jsstring
  sseResponse :: "nat option"
  pendingRequests :: "(rpc_id \<times> nat) list"
  connected :: bool

text \<open>
  The parts of an Express request the gateway reads: the three places a session id is
  looked for, and the parsed body.
\<close>

record Request =
  query_sessionId :: "jsstring option"
  header_sessionId :: "jsstring option"
  body_sessionId :: "jsstring option"
  body :: JSONRPCMessage

text \<open>What \<open>res.json\<close> is given: a JSON-RPC envelope or another JSON value.\<close>

datatype payload = Envelope JSONRPCMessage | Plain json

text \<open>A timer armed by \<open>setTimeout\<close>, with what its callback closes over.\<close>

record timer =
  t_session :: nat
  t_id :: rpc_id
  t_resolve :: nat
  t_delay :: nat

text \<open>
  The gateway and the world it acts on: the heap of Session objects, the Session Store
  \<open>this.sessions\<close> (session id to reference), and what the gateway has done to its
  collaborators, each in the order it happened: the writes to each child's stdin, the
  promises already resolved, the answers given with \<open>res.status(..).json(..)\<close>, the
  headers set and the chunks written on streaming responses, the timers still armed,
  the close handlers registered on requests, and the children sent SIGTERM.
\<close>

record gateway =
  heap :: "Session list"
  sessions :: "(jsstring \<times> nat) list"
  stdin :: "(nat \<times> jsstring) list"
  settled :: "nat list"
  responses :: "(nat \<times> nat \<times> payload) list"
  headers :: "(nat \<times> jsstring \<times> jsstring) list"
  sseWrites :: "(nat \<times> jsstring) list"
  timers :: "timer list"
  closeHandlers :: "(nat \<times> nat) list"
  killed :: "nat list"

text \<open>
  \<open>JSON.parse\<close> (followed by the cast to \<open>JSONRPCMessage\<close>; \<open>None\<close> when it
  throws) and \<open>JSON.stringify\<close> belong to the platform and are parameters.
\<close>

record platform =
  JSON_parse :: "jsstring \<Rightarrow> JSONRPCMessage option"
  JSON_stringify :: "JSONRPCMessage \<Rightarrow> jsstring"

definition init :: gateway where
  "init = \<lparr>heap = [], sessions = [], stdin = [], settled = [], responses = [],
           headers = [], sseWrites = [], timers = [], closeHandlers = [], killed = []\<rparr>"

definition defaultSessionId :: jsstring where
  "defaultSessionId = js ''default-session''"

section \<open>The operations\<close>

definition modify :: "nat \<Rightarrow> (Session \<Rightarrow> Session) \<Rightarrow> gateway \<Rightarrow> gateway" where
  "modify r f s = s\<lparr>heap := (heap s)[r := f (heap s ! r)]\<rparr>"

text \<open>
  \<open>createSession\<close>. Whether \<open>spawn\<close> throws is the environment's choice
  (\<open>spawn_ok\<close>). The new Session is allocated at the end of the heap; the handlers
  registered on the child are the functions \<open>handleStdioData\<close>, \<open>onError\<close> and
  \<open>onExit\<close> below, applied to its reference.
\<close>

datatype gateway_error = SpawnError

definition createSession :: "jsstring \<Rightarrow> bool \<Rightarrow> gateway \<Rightarrow> gateway_error + nat \<times> gateway" where
  "createSession sessionId spawn_ok s =
     (if \<not> spawn_ok then Inl SpawnError
      else
        let r = length (heap s);
            session = \<lparr>session_id = sessionId, process = r, messageBuffer = [],
                       sseResponse = None, pendingRequests = [], connected = True\<rparr>
        in Inr (r, s\<lparr>heap := heap s @ [session],
                      sessions := AList.update sessionId r (sessions s)\<rparr>))"

definition onError :: "nat \<Rightarrow> gateway \<Rightarrow> gateway" where
  "onError r s = modify r (\<lambda>x. x\<lparr>connected := False\<rparr>) s"

definition onExit :: "nat \<Rightarrow> gateway \<Rightarrow> gateway" where
  "onExit r s =
     (let s1 = modify r (\<lambda>x. x\<lparr>connected := False\<rparr>) s
      in s1\<lparr>sessions := AList.delete (session_id (heap s ! r)) (sessions s1)\<rparr>)"

text \<open>
  Resolving the promise of a request: the first call settles it and the handler that
  awaits it answers with \<open>res.json(response)\<close>; a promise already settled ignores
  the call.
\<close>

definition resolve :: "nat \<Rightarrow> JSONRPCMessage \<Rightarrow> gateway \<Rightarrow> gateway" where
  "resolve res response s =
     (if res \<in> set (settled s) then s
      else s\<lparr>settled := res # settled s,
             responses := responses s @ [(res, 200, Envelope response)]\<rparr>)"

definition sse_frame :: "platform \<Rightarrow> JSONRPCMessage \<Rightarrow> jsstring" where
  "sse_frame P message = js ''data: '' @ JSON_stringify P message @ [nl, nl]"

definition handleStdioMessage :: "platform \<Rightarrow> nat \<Rightarrow> JSONRPCMessage \<Rightarrow> gateway \<Rightarrow> gateway" where
  "handleStdioMessage P r message s =
     (let s1 =
        (case id' message of
           None \<Rightarrow> s
         | Some i \<Rightarrow>
             (case map_of (pendingRequests (heap s ! r)) i of
                None \<Rightarrow> s
              | Some callback \<Rightarrow>
                  resolve callback message
                    (modify r (\<lambda>x. x\<lparr>pendingRequests := AList.delete i (pendingRequests x)\<rparr>) s)))
      in (case sseResponse (heap s1 ! r) of
            None \<Rightarrow> s1
          | Some res \<Rightarrow> s1\<lparr>sseWrites := sseWrites s1 @ [(res, sse_frame P message)]\<rparr>))"

definition handleLine :: "platform \<Rightarrow> nat \<Rightarrow> gateway \<Rightarrow> jsstring \<Rightarrow> gateway" where
  "handleLine P r s line =
     (if trim line = [] then s
      else (case JSON_parse P line of
              None \<Rightarrow> s
            | Some message \<Rightarrow> handleStdioMessage P r message s))"

definition handleStdioData :: "platform \<Rightarrow> nat \<Rightarrow> buffer \<Rightarrow> gateway \<Rightarrow> gateway" where
  "handleStdioData P r data s =
     (let lines = split_nl (messageBuffer (heap s ! r) @ toString data);
          s1 = modify r (\<lambda>x. x\<lparr>messageBuffer := pop_or_empty lines\<rparr>) s
      in foldl (handleLine P r) s1 (butlast lines))"

definition sendToStdio :: "platform \<Rightarrow> nat \<Rightarrow> JSONRPCMessage \<Rightarrow> gateway \<Rightarrow> gateway" where
  "sendToStdio P r message s =
     s\<lparr>stdin := stdin s @ [(process (heap s ! r), JSON_stringify P message @ [nl])]\<rparr>"

text \<open>\<open>a || b\<close> on optional strings: \<open>undefined\<close> and the empty string are falsy.\<close>

definition or_js :: "jsstring option \<Rightarrow> jsstring option \<Rightarrow> jsstring option" where
  "or_js a b = (case a of Some (c # cs) \<Rightarrow> a | _ \<Rightarrow> b)"

definition or_default :: "jsstring option \<Rightarrow> jsstring" where
  "or_default a = (case a of Some (c # cs) \<Rightarrow> c # cs | _ \<Rightarrow> defaultSessionId)"

definition respond :: "nat \<Rightarrow> nat \<Rightarrow> payload \<Rightarrow> gateway \<Rightarrow> gateway" where
  "respond res status b s = s\<lparr>responses := responses s @ [(res, status, b)]\<rparr>"

definition error_envelope :: "string \<Rightarrow> JSONRPCMessage" where
  "error_envelope msg =
     \<lparr>jsonrpc = js ''2.0'', id' = None, method' = None, params = None, result = None,
      error = Some (JObj [(js ''code'', JNum (- 32603)), (js ''message'', JStr (js msg))])\<rparr>"

definition result_envelope :: "rpc_id \<Rightarrow> json \<Rightarrow> JSONRPCMessage" where
  "result_envelope i v =
     \<lparr>jsonrpc = js ''2.0'', id' = Some i, method' = None, params = None, result = Some v,
      error = None\<rparr>"

definition timeout_envelope :: "rpc_id \<Rightarrow> JSONRPCMessage" where
  "timeout_envelope i = (error_envelope ''Request timeout'')\<lparr>id' := Some i\<rparr>"

text \<open>The callback given to \<open>setTimeout\<close> in \<open>handleMessage\<close>.\<close>

definition onTimeout :: "timer \<Rightarrow> gateway \<Rightarrow> gateway" where
  "onTimeout t s =
     (case map_of (pendingRequests (heap s ! t_session t)) (t_id t) of
        None \<Rightarrow> s
      | Some _ \<Rightarrow>
          resolve (t_resolve t) (timeout_envelope (t_id t))
            (modify (t_session t)
               (\<lambda>x. x\<lparr>pendingRequests := AList.delete (t_id t) (pendingRequests x)\<rparr>) s))"

text \<open>
  The executor of the promise in \<open>handleMessage\<close>, in the order of the source: the
  resolver is put in the table, the message is sent, the timer is armed.
\<close>

definition registerPending :: "nat \<Rightarrow> rpc_id \<Rightarrow> nat \<Rightarrow> gateway \<Rightarrow> gateway" where
  "registerPending r i res s =
     modify r (\<lambda>x. x\<lparr>pendingRequests := AList.update i res (pendingRequests x)\<rparr>) s"

definition setTimeout :: "timer \<Rightarrow> gateway \<Rightarrow> gateway" where
  "setTimeout t s = s\<lparr>timers := timers s @ [t]\<rparr>"

definition submit :: "platform \<Rightarrow> nat \<Rightarrow> rpc_id \<Rightarrow> JSONRPCMessage \<Rightarrow> nat \<Rightarrow> gateway \<Rightarrow> gateway" where
  "submit P r i message res s =
     setTimeout \<lparr>t_session = r, t_id = i, t_resolve = res, t_delay = 30000\<rparr>
       (sendToStdio P r message (registerPending r i res s))"

text \<open>The \<open>try\<close> block of \<open>handleMessage\<close>, for the Session with reference \<open>r\<close>.\<close>

definition dispatch :: "platform \<Rightarrow> nat \<Rightarrow> JSONRPCMessage \<Rightarrow> nat \<Rightarrow> gateway \<Rightarrow> gateway" where
  "dispatch P r message res s =
     (case id' message of
        Some i \<Rightarrow>
          if method' message = Some (js ''logging/setLevel'')
          then respond res 200 (Envelope (result_envelope i (JObj []))) s
          else if method' message = Some (js ''resources/list'')
          then respond res 200
                 (Envelope (result_envelope i (JObj [(js ''resources'', JArr [])]))) s
          else submit P r i message res s
      | None \<Rightarrow> respond res 202 (Plain (JObj [])) (sendToStdio P r message s))"

text \<open>
  The lookup at the head of \<open>handleMessage\<close>: the reference of a stored, connected
  Session, if there is one.
\<close>

definition usable :: "gateway \<Rightarrow> jsstring \<Rightarrow> nat option" where
  "usable s sessionId =
     (case map_of (sessions s) sessionId of
        None \<Rightarrow> None
      | Some r \<Rightarrow> if connected (heap s ! r) then Some r else None)"

text \<open>
  \<open>handleMessage\<close>. The session id comes from the query, the header or the body, in
  that order, else it is the default. The test \<open>if (!session)\<close> after the creation
  cannot succeed (\<open>createSession\<close> returns a Session or throws), and nothing in the
  \<open>try\<close> block throws here, so its \<open>catch\<close> is never entered; both are left
  out. The handler answers a request when its promise is resolved (see \<open>resolve\<close>).
\<close>

definition message_sessionId :: "Request \<Rightarrow> jsstring" where
  "message_sessionId req =
     or_default (or_js (or_js (query_sessionId req) (header_sessionId req)) (body_sessionId req))"

definition handleMessage :: "platform \<Rightarrow> Request \<Rightarrow> nat \<Rightarrow> bool \<Rightarrow> gateway \<Rightarrow> gateway" where
  "handleMessage P req res spawn_ok s =
     (let sessionId = message_sessionId req
      in (case usable s sessionId of
            Some r \<Rightarrow> dispatch P r (body req) res s
          | None \<Rightarrow>
              (case createSession sessionId spawn_ok s of
                 Inl _ \<Rightarrow>
                   respond res 500 (Envelope (error_envelope ''Failed to create session'')) s
               | Inr (r, s1) \<Rightarrow>
                   dispatch P r (body req) res
                     (s1\<lparr>sessions := AList.update sessionId r (sessions s1)\<rparr>))))"

definition sse_sessionId :: "Request \<Rightarrow> jsstring" where
  "sse_sessionId req = or_default (or_js (query_sessionId req) (header_sessionId req))"

text \<open>The rest of \<open>handleSSE\<close> once it holds a Session.\<close>

definition attach :: "nat \<Rightarrow> nat \<Rightarrow> gateway \<Rightarrow> gateway" where
  "attach r res s =
     (let s1 = s\<lparr>headers := headers s @
                   [(res, js ''Content-Type'', js ''text/event-stream''),
                    (res, js ''Cache-Control'', js ''no-cache''),
                    (res, js ''Connection'', js ''keep-alive''),
                    (res, js ''X-Accel-Buffering'', js ''no'')]\<rparr>;
          s2 = modify r (\<lambda>x. x\<lparr>sseResponse := Some res\<rparr>) s1;
          s3 = s2\<lparr>sseWrites := sseWrites s2 @ [(res, js '':ok'' @ [nl, nl])]\<rparr>
      in s3\<lparr>closeHandlers := AList.update res r (closeHandlers s3)\<rparr>)"

definition handleSSE :: "Request \<Rightarrow> nat \<Rightarrow> bool \<Rightarrow> gateway \<Rightarrow> gateway" where
  "handleSSE req res spawn_ok s =
     (let sessionId = sse_sessionId req
      in (case map_of (sessions s) sessionId of
            Some r \<Rightarrow> attach r res s
          | None \<Rightarrow>
              (case createSession sessionId spawn_ok s of
                 Inl _ \<Rightarrow>
                   respond res 500
                     (Plain (JObj [(js ''error'', JStr (js ''Failed to create session''))])) s
               | Inr (r, s1) \<Rightarrow>
                   attach r res (s1\<lparr>sessions := AList.update sessionId r (sessions s1)\<rparr>))))"

text \<open>The handler of the request's \<open>close\<close> event registered by \<open>handleSSE\<close>.\<close>

definition onClose :: "nat \<Rightarrow> nat \<Rightarrow> gateway \<Rightarrow> gateway" where
  "onClose r res s =
     (if sseResponse (heap s ! r) = Some res
      then modify r (\<lambda>x. x\<lparr>sseResponse := None\<rparr>) s
      else s)"

definition close :: "gateway \<Rightarrow> gateway" where
  "close s = s\<lparr>killed := killed s @ map (\<lambda>(k, r). process (heap s ! r)) (sessions s),
              sessions := []\<rparr>"

section \<open>The event loop\<close>

text \<open>
  Node.js runs one callback at a time. An event is an HTTP request reaching one of the
  two entry points (with the handle of its response and the outcome of a \<open>spawn\<close>,
  should one be made), or a callback the gateway registered being called: data on a
  child's stdout, a child's \<open>error\<close> or \<open>exit\<close>, a timer firing, a request
  closing; or the shutdown. A child is named by the reference of its Session, a timer
  by the response it would answer. A timer fires once.
\<close>

datatype event =
    Post Request nat bool
  | Sse Request nat bool
  | StdoutData nat buffer
  | ProcError nat
  | ProcExit nat
  | Timeout nat
  | ReqClose nat
  | Shutdown

fun step :: "platform \<Rightarrow> gateway \<Rightarrow> event \<Rightarrow> gateway" where
  "step P s (Post req res spawn_ok) = handleMessage P req res spawn_ok s"
| "step P s (Sse req res spawn_ok) = handleSSE req res spawn_ok s"
| "step P s (StdoutData r data) = (if r < length (heap s) then handleStdioData P r data s else s)"
| "step P s (ProcError r) = (if r < length (heap s) then onError r s else s)"
| "step P s (ProcExit r) = (if r < length (heap s) then onExit r s else s)"
| "step P s (Timeout res) =
     (case find (\<lambda>t. t_resolve t = res) (timers s) of
        None \<Rightarrow> s
      | Some t \<Rightarrow> onTimeout t (s\<lparr>timers := remove1 t (timers s)\<rparr>))"
| "step P s (ReqClose res) =
     (case map_of (closeHandlers s) res of None \<Rightarrow> s | Some r \<Rightarrow> onClose r res s)"
| "step P s Shutdown = close s"

definition run :: "platform \<Rightarrow> gateway \<Rightarrow> event list \<Rightarrow> gateway" where
  "run P s es = foldl (step P) s es"

section \<open>Derived notions used in the statements\<close>

text \<open>
  \<open>handleMessage\<close> holds a Session when a connected one is stored under the id or
  the spawn succeeds; \<open>target\<close> is the reference of that Session (a new Session is
  allocated at the end of the heap).
\<close>

definition available :: "gateway \<Rightarrow> jsstring \<Rightarrow> bool \<Rightarrow> bool" where
  "available s sessionId spawn_ok = (usable s sessionId \<noteq> None \<or> spawn_ok)"

definition target :: "gateway \<Rightarrow> jsstring \<Rightarrow> nat" where
  "target s sessionId = (case usable s sessionId of Some r \<Rightarrow> r | None \<Rightarrow> length (heap s))"

text \<open>
  The decode step of \<open>handleStdioData\<close> on text that is already decoded:
  \<open>handleStdioData P r data\<close> is \<open>feed P r (toString data)\<close>.
\<close>

definition feed :: "platform \<Rightarrow> nat \<Rightarrow> jsstring \<Rightarrow> gateway \<Rightarrow> gateway" where
  "feed P r text s =
     (let lines = split_nl (messageBuffer (heap s ! r) @ text);
          s1 = modify r (\<lambda>x. x\<lparr>messageBuffer := pop_or_empty lines\<rparr>) s
      in foldl (handleLine P r) s1 (butlast lines))"

text \<open>Lines, each followed by its newline, as one text.\<close>

definition framed :: "jsstring list \<Rightarrow> jsstring" where
  "framed ls = concat (map (\<lambda>l. l @ [nl]) ls)"

text \<open>The answers given so far on one response.\<close>

definition answers :: "gateway \<Rightarrow> nat \<Rightarrow> (nat \<times> payload) list" where
  "answers s res = map snd (filter (\<lambda>a. fst a = res) (responses s))"

text \<open>
  A request on response \<open>res\<close> with id \<open>i\<close> is waiting in the Session \<open>r\<close>: its
  resolver is in the table, nothing has answered it, its timer is the one that fires for
  \<open>res\<close>, no timer of another request watches the same entry, and no other entry
  holds its resolver.
\<close>

definition request_timer :: "nat \<Rightarrow> rpc_id \<Rightarrow> nat \<Rightarrow> timer" where
  "request_timer r i res = \<lparr>t_session = r, t_id = i, t_resolve = res, t_delay = 30000\<rparr>"

definition waiting :: "gateway \<Rightarrow> nat \<Rightarrow> rpc_id \<Rightarrow> nat \<Rightarrow> bool" where
  "waiting s r i res \<longleftrightarrow>
     r < length (heap s)
     \<and> map_of (pendingRequests (heap s ! r)) i = Some res
     \<and> res \<notin> set (settled s)
     \<and> answers s res = []
     \<and> find (\<lambda>t. t_resolve t = res) (timers s) = Some (request_timer r i res)
     \<and> list_all (\<lambda>t. t_resolve t = res \<or> \<not> (t_session t = r \<and> t_id t = i)) (timers s)
     \<and> list_all (\<lambda>k. list_all (\<lambda>(j, c). c = res \<longrightarrow> k = r \<and> j = i)
                        (pendingRequests (heap s ! k))) [0..<length (heap s)]"

text \<open>
  The request has its one answer: status 200 with an envelope that carries its id (the
  reply of the backend, or the timeout envelope).
\<close>

definition answered :: "gateway \<Rightarrow> rpc_id \<Rightarrow> nat \<Rightarrow> bool" where
  "answered s i res \<longleftrightarrow>
     res \<in> set (settled s)
     \<and> (case answers s res of
           [(status, Envelope m)] \<Rightarrow> status = 200 \<and> id' m = Some i
         | _ \<Rightarrow> False)"

text \<open>
  Before the request is posted: its response is new to the gateway, and no timer of an
  earlier request with the same id on the same Session is still armed.
\<close>

definition fresh :: "gateway \<Rightarrow> nat \<Rightarrow> rpc_id \<Rightarrow> nat \<Rightarrow> bool" where
  "fresh s r i res \<longleftrightarrow>
     res \<notin> set (settled s)
     \<and> answers s res = []
     \<and> list_all (\<lambda>t. t_resolve t \<noteq> res \<and> \<not> (t_session t = r \<and> t_id t = i)) (timers s)
     \<and> list_all (\<lambda>x. list_all (\<lambda>(j, c). c \<noteq> res) (pendingRequests x)) (heap s)"

text \<open>
  From \<open>s\<close> to \<open>s'\<close> no settled promise is forgotten, and a response whose promise is
  settled gets no further answer.
\<close>

definition keeps :: "nat \<Rightarrow> gateway \<Rightarrow> gateway \<Rightarrow> bool" where
  "keeps res s s' \<longleftrightarrow>
     set (settled s) \<subseteq> set (settled s')
     \<and> (res \<in> set (settled s) \<longrightarrow> answers s' res = answers s res)"

text \<open>Events that do not reuse the response of the request, nor post its id again.\<close>

fun quiet :: "rpc_id \<Rightarrow> nat \<Rightarrow> event \<Rightarrow> bool" where
  "quiet i res (Post req res' spawn_ok) = (res' \<noteq> res \<and> id' (body req) \<noteq> Some i)"
| "quiet i res (Sse req res' spawn_ok) = (res' \<noteq> res)"
| "quiet i res e = True"

section \<open>Example inputs\<close>

definition bytes :: "string \<Rightarrow> buffer" where
  "bytes cs = map of_char cs"

definition ex_call :: JSONRPCMessage where
  "ex_call = \<lparr>jsonrpc = js ''2.0'', id' = Some (IdNum 1), method' = Some (js ''tools/list''),
              params = None, result = None, error = None\<rparr>"

definition ex_reply :: JSONRPCMessage where
  "ex_reply = \<lparr>jsonrpc = js ''2.0'', id' = Some (IdNum 1), method' = None, params = None,
               result = Some (JObj [(js ''tools'', JArr [])]), error = None\<rparr>"

definition ex_notification :: JSONRPCMessage where
  "ex_notification = \<lparr>jsonrpc = js ''2.0'', id' = None,
                      method' = Some (js ''notifications/initialized''),
                      params = None, result = None, error = None\<rparr>"

definition ex_request :: "JSONRPCMessage \<Rightarrow> Request" where
  "ex_request m = \<lparr>query_sessionId = None, header_sessionId = None, body_sessionId = None,
                   body = m\<rparr>"

definition ex_reply_line :: jsstring where
  \<open>ex_reply_line = js ''{"jsonrpc":"2.0","id":1,"result":{"tools":[]}}''\<close>

text \<open>
  A reply whose result is the one-letter string U+00E9, and what becomes of it when
  the two bytes of that letter are decoded apart.
\<close>

definition ex_text_reply :: JSONRPCMessage where
  "ex_text_reply = \<lparr>jsonrpc = js ''2.0'', id' = Some (IdNum 1), method' = None, params = None,
                    result = Some (JStr [0xE9]), error = None\<rparr>"

definition ex_text_line :: jsstring where
  \<open>ex_text_line = js ''{"jsonrpc":"2.0","id":1,"result":"'' @ [0xE9] @ js ''"}''\<close>

definition ex_garbled_reply :: JSONRPCMessage where
  "ex_garbled_reply = \<lparr>jsonrpc = js ''2.0'', id' = Some (IdNum 1), method' = None,
                       params = None, result = Some (JStr [0xFFFD, 0xFFFD]), error = None\<rparr>"

definition ex_garbled_line :: jsstring where
  \<open>ex_garbled_line = js ''{"jsonrpc":"2.0","id":1,"result":"'' @ [0xFFFD, 0xFFFD] @ js ''"}''\<close>

definition ex_chunk1 :: buffer where
  \<open>ex_chunk1 = bytes ''{"jsonrpc":"2.0","id":1,"result":"'' @ [0xC3]\<close>

definition ex_chunk2 :: buffer where
  \<open>ex_chunk2 = [0xA9] @ bytes ''"}'' @ [0x0A]\<close>

text \<open>\<open>JSON.parse\<close> and \<open>JSON.stringify\<close> on the texts and messages of the examples.\<close>

definition ex_platform :: platform where
  \<open>ex_platform =
     \<lparr>JSON_parse =
        (\<lambda>l. if l = ex_reply_line then Some ex_reply
              else if l = ex_text_line then Some ex_text_reply
              else if l = ex_garbled_line then Some ex_garbled_reply
              else None),
      JSON_stringify =
        (\<lambda>m. if m = ex_reply then ex_reply_line
              else if m = ex_call then js ''{"jsonrpc":"2.0","id":1,"method":"tools/list"}''
              else js ''{"jsonrpc":"2.0"}'')\<rparr>\<close>

text \<open>One request with id 1 waiting on response 0.\<close>

definition ex_waiting :: gateway where
  "ex_waiting = run ex_platform init [Post (ex_request ex_call) 0 True]"

text \<open>
  Two requests with the same id, one after the other: the first is answered by the
  backend; the second is posted before the timer of the first fires, and its reply
  comes after.
\<close>

definition ex_reuse :: "event list" where
  \<open>ex_reuse =
     [Post (ex_request ex_call) 0 True,
      StdoutData 0 (bytes ''{"jsonrpc":"2.0","id":1,"result":{"tools":[]}}'' @ [0x0A]),
      Post (ex_request ex_call) 1 True,
      Timeout 0,
      StdoutData 0 (bytes ''{"jsonrpc":"2.0","id":1,"result":{"tools":[]}}'' @ [0x0A]),
      Timeout 1]\<close>

text \<open>
  The same two requests, with the child exiting while the second is pending: the timer
  of the first request, armed first, fires first.
\<close>

definition ex_exit_reuse :: "event list" where
  \<open>ex_exit_reuse =
     [Post (ex_request ex_call) 0 True,
      StdoutData 0 (bytes ''{"jsonrpc":"2.0","id":1,"result":{"tools":[]}}'' @ [0x0A]),
      Post (ex_request ex_call) 1 True,
      ProcExit 0,
      Timeout 0,
      Timeout 1]\<close>

text \<open>One request waiting on response 0, and a listener on response 1.\<close>

definition ex_listening :: gateway where
  "ex_listening =
     run ex_platform init [Post (ex_request ex_call) 0 True, Sse (ex_request ex_call) 1 True]"

text \<open>The default Session after its child has reported an error.\<close>

definition ex_errored :: gateway where
  "ex_errored = run ex_platform init [Post (ex_request ex_call) 0 True, ProcError 0]"

definition ex_setLevel :: JSONRPCMessage where
  "ex_setLevel = ex_call\<lparr>method' := Some (js ''logging/setLevel'')\<rparr>"

definition ex_silent :: JSONRPCMessage where
  "ex_silent = ex_notification\<lparr>method' := Some (js ''logging/setLevel'')\<rparr>"

section \<open>Basic facts\<close>

lemma split_nl_not_Nil: "split_nl l \<noteq> []"
  by (induction l) (auto split: list.splits)

lemma of_char_lt: "(of_char c :: nat) < 256"
proof -
  have "(of_char c :: nat) mod 256 < 256" by simp
  then show ?thesis by simp
qed

lemma of_char_word16_eq_iff: "(of_char a :: 16 word) = of_char b \<longleftrightarrow> a = b"
proof
  assume "(of_char a :: 16 word) = of_char b"
  then have "(word_of_nat (of_char a) :: 16 word) = word_of_nat (of_char b)"
    by (simp only: of_nat_of_char)
  then have "take_bit 16 (of_char a :: nat) = take_bit 16 (of_char b :: nat)"
    by (simp add: word_of_nat_eq_iff)
  moreover have "take_bit 16 (of_char c :: nat) = of_char c" for c
  proof (rule take_bit_nat_eq_self)
    have "(256::nat) \<le> 2 ^ 16" by simp
    with of_char_lt [of c] show "(of_char c :: nat) < 2 ^ 16" by linarith
  qed
  ultimately have "(of_char a :: nat) = of_char b" by simp
  then show "a = b" by simp
qed simp

lemma js_eq_iff: "js a = js b \<longleftrightarrow> a = b"
  unfolding js_def
  by (rule inj_map_eq_map) (simp add: inj_on_def of_char_word16_eq_iff)

lemma js_simps: "js [] = []" "js (c # cs) = of_char c # js cs"
  by (simp_all add: js_def)

lemma modify_simps:
  "heap (modify r f s) = (heap s)[r := f (heap s ! r)]"
  "sessions (modify r f s) = sessions s"
  "stdin (modify r f s) = stdin s"
  "settled (modify r f s) = settled s"
  "responses (modify r f s) = responses s"
  "headers (modify r f s) = headers s"
  "sseWrites (modify r f s) = sseWrites s"
  "timers (modify r f s) = timers s"
  "closeHandlers (modify r f s) = closeHandlers s"
  "killed (modify r f s) = killed s"
  by (simp_all add: modify_def)

lemma resolve_simps:
  "heap (resolve c m s) = heap s"
  "sessions (resolve c m s) = sessions s"
  "stdin (resolve c m s) = stdin s"
  "headers (resolve c m s) = headers s"
  "sseWrites (resolve c m s) = sseWrites s"
  "timers (resolve c m s) = timers s"
  "closeHandlers (resolve c m s) = closeHandlers s"
  "killed (resolve c m s) = killed s"
  by (simp_all add: resolve_def)

lemma resolve_fresh:
  "c \<notin> set (settled s) \<Longrightarrow> responses (resolve c m s) = responses s @ [(c, 200, Envelope m)]"
  "c \<notin> set (settled s) \<Longrightarrow> settled (resolve c m s) = c # settled s"
  by (simp_all add: resolve_def)

lemmas ex_defs = ex_listening_def ex_platform_def ex_request_def ex_call_def ex_reply_def
  ex_notification_def ex_reply_line_def

lemmas op_defs = run_def init_def handleMessage_def handleSSE_def dispatch_def submit_def
  createSession_def respond_def sendToStdio_def setTimeout_def registerPending_def modify_def
  usable_def message_sessionId_def sse_sessionId_def or_js_def or_default_def attach_def
  defaultSessionId_def handleStdioMessage_def resolve_def onTimeout_def onError_def onExit_def
  onClose_def available_def target_def answers_def Let_def

lemma ex_listening_eval:
  "ex_listening =
     \<lparr>heap = [\<lparr>session_id = js ''default-session'', process = 0, messageBuffer = [],
               sseResponse = Some 1, pendingRequests = [(IdNum 1, 0)], connected = True\<rparr>],
      sessions = [(js ''default-session'', 0)],
      stdin = [(0, JSON_stringify ex_platform ex_call @ [nl])],
      settled = [], responses = [],
      headers = [(1, js ''Content-Type'', js ''text/event-stream''),
                 (1, js ''Cache-Control'', js ''no-cache''),
                 (1, js ''Connection'', js ''keep-alive''),
                 (1, js ''X-Accel-Buffering'', js ''no'')],
      sseWrites = [(1, js '':ok'' @ [nl, nl])],
      timers = [\<lparr>t_session = 0, t_id = IdNum 1, t_resolve = 0, t_delay = 30000\<rparr>],
      closeHandlers = [(1, 0)], killed = []\<rparr>"
  by (simp add: ex_listening_def ex_request_def ex_call_def op_defs js_eq_iff)

section \<open>Dispatch of a backend message\<close>

text \<open>
  C4. \<open>handleStdioMessage\<close> delivers a backend message on two paths that do not
  exclude each other. When the message has an id that is in the Session's pending table,
  the entry is removed (the rest of the table stays) and the resolver is called with the
  message: the waiting response, unless its promise is already settled, is answered
  with the message itself. When the id is undefined or not in the table, no Session and
  no answer changes. In both cases, when the Session has an SSE sink, the text
  \<open>data: \<close> followed by \<open>JSON.stringify\<close> of the same message and two newlines
  is written to that sink, and when it has none nothing is written. In particular, after the timer of a request has fired, a reply
  with that id answers nothing and changes no table, and still reaches the sink.
\<close>

theorem handleStdioMessage_two_paths:
  assumes "r < length (heap s)"
  shows
    "(\<forall>i cb. id' m = Some i \<and> map_of (pendingRequests (heap s ! r)) i = Some cb \<longrightarrow>
        map_of (pendingRequests (heap (handleStdioMessage P r m s) ! r)) =
          (map_of (pendingRequests (heap s ! r)))(i := None)
        \<and> (cb \<notin> set (settled s) \<longrightarrow>
             responses (handleStdioMessage P r m s) = responses s @ [(cb, 200, Envelope m)]))
   \<and> ((id' m = None \<or> (\<exists>i. id' m = Some i \<and> map_of (pendingRequests (heap s ! r)) i = None)) \<longrightarrow>
        heap (handleStdioMessage P r m s) = heap s
        \<and> responses (handleStdioMessage P r m s) = responses s)
   \<and> (\<forall>sink. sseResponse (heap s ! r) = Some sink \<longrightarrow>
        sseWrites (handleStdioMessage P r m s) = sseWrites s @ [(sink, js ''data: '' @ JSON_stringify P m @ [0x0A, 0x0A])])
   \<and> (sseResponse (heap s ! r) = None \<longrightarrow>
        sseWrites (handleStdioMessage P r m s) = sseWrites s)
   \<and> (\<forall>t. t_session t = r \<and> id' m = Some (t_id t) \<longrightarrow>
        responses (handleStdioMessage P r m (onTimeout t s)) = responses (onTimeout t s)
        \<and> pendingRequests (heap (handleStdioMessage P r m (onTimeout t s)) ! r) =
            pendingRequests (heap (onTimeout t s) ! r)
        \<and> (\<forall>sink. sseResponse (heap s ! r) = Some sink \<longrightarrow>
             sseWrites (handleStdioMessage P r m (onTimeout t s)) =
               sseWrites (onTimeout t s) @
                 [(sink, js ''data: '' @ JSON_stringify P m @ [0x0A, 0x0A])]))"
  using assms
  by (auto simp add: handleStdioMessage_def onTimeout_def modify_simps resolve_simps resolve_fresh
        sse_frame_def nl_def delete_conv' Let_def split: option.splits)

text \<open>
  The theorem at work: with one request waiting on response 0 and a listener on
  response 1, the reply answers response 0 and is written to the listener as well.
\<close>

theorem handleStdioMessage_two_paths_witness:
  "0 < length (heap ex_listening)
   \<and> id' ex_reply = Some (IdNum 1)
   \<and> map_of (pendingRequests (heap ex_listening ! 0)) (IdNum 1) = Some 0
   \<and> 0 \<notin> set (settled ex_listening)
   \<and> sseResponse (heap ex_listening ! 0) = Some 1
   \<and> responses (handleStdioMessage ex_platform 0 ex_reply ex_listening) =
       [(0, 200, Envelope ex_reply)]
   \<and> sseWrites (handleStdioMessage ex_platform 0 ex_reply ex_listening) =
       [(1, js '':ok'' @ [0x0A, 0x0A]),
        (1, js ''data: {\"jsonrpc\":\"2.0\",\"id\":1,\"result\":{\"tools\":[]}}'' @ [0x0A, 0x0A])]"
proof -
  have h: "0 < length (heap ex_listening)"
    by (simp add: ex_listening_eval)
  have a: "id' ex_reply = Some (IdNum 1)"
    by (simp add: ex_reply_def)
  have b: "map_of (pendingRequests (heap ex_listening ! 0)) (IdNum 1) = Some 0"
    by (simp add: ex_listening_eval)
  have c: "0 \<notin> set (settled ex_listening)"
    by (simp add: ex_listening_eval)
  have d: "sseResponse (heap ex_listening ! 0) = Some 1"
    by (simp add: ex_listening_eval)
  from handleStdioMessage_two_paths [OF h, of ex_reply ex_platform] a b c d
  have "responses (handleStdioMessage ex_platform 0 ex_reply ex_listening) =
          responses ex_listening @ [(0, 200, Envelope ex_reply)]"
    and "sseWrites (handleStdioMessage ex_platform 0 ex_reply ex_listening) =
          sseWrites ex_listening @
            [(1, js ''data: '' @ JSON_stringify ex_platform ex_reply @ [0x0A, 0x0A])]"
    by blast+
  with h a b c d show ?thesis
    by (simp add: ex_listening_eval ex_platform_def ex_reply_line_def js_simps nl_def)
qed

section \<open>Session creation failure\<close>

lemma handleMessage_unavailable:
  "\<not> available s (message_sessionId req) spawn_ok \<Longrightarrow>
   handleMessage P req res spawn_ok s =
     s\<lparr>responses := responses s @
         [(res, 500, Envelope (error_envelope ''Failed to create session''))]\<rparr>"
  by (simp add: handleMessage_def createSession_def respond_def available_def)

text \<open>
  C3 (as amended). Whenever session creation fails because \<open>spawn\<close> throws,
  \<open>createSession\<close> returns no Session, no Session is created, and the Session Store is
  left exactly as it was. Through \<open>handleMessage\<close> (it finds no connected Session
  under the id) the only effect is the answer: status 500 with the envelope
  \<open>{jsonrpc: "2.0", error: {code: -32603, message: "Failed to create session"}}\<close>;
  an id that had no entry still has none, and an id whose stored Session was
  disconnected keeps that entry. Through \<open>handleSSE\<close> (it finds no Session stored
  under the id) the only effect is the answer: status 500 with the body
  \<open>{error: "Failed to create session"}\<close>, which carries no code.
\<close>

theorem failed_spawn_leaves_store:
  "createSession sessionId False s = Inl SpawnError
   \<and> (usable s (message_sessionId req) = None \<longrightarrow>
        handleMessage P req res False s =
          s\<lparr>responses := responses s @
              [(res, 500, Envelope
                 \<lparr>jsonrpc = js ''2.0'', id' = None, method' = None, params = None,
                  result = None,
                  error = Some (JObj [(js ''code'', JNum (- 32603)),
                                      (js ''message'',
                                       JStr (js ''Failed to create session''))])\<rparr>)]\<rparr>
        \<and> heap (handleMessage P req res False s) = heap s
        \<and> sessions (handleMessage P req res False s) = sessions s
        \<and> map_of (sessions (handleMessage P req res False s)) (message_sessionId req) =
            map_of (sessions s) (message_sessionId req))
   \<and> (map_of (sessions s) (sse_sessionId req) = None \<longrightarrow>
        handleSSE req res False s =
          s\<lparr>responses := responses s @
              [(res, 500, Plain (JObj [(js ''error'',
                                        JStr (js ''Failed to create session''))]))]\<rparr>
        \<and> heap (handleSSE req res False s) = heap s
        \<and> sessions (handleSSE req res False s) = sessions s
        \<and> map_of (sessions (handleSSE req res False s)) (sse_sessionId req) = None)"
  by (simp add: handleMessage_def handleSSE_def createSession_def respond_def error_envelope_def)

text \<open>
  The theorem at work on the empty gateway, where the default id has no entry: either
  entry point answers 500 and the id still has no entry.
\<close>

theorem failed_spawn_leaves_store_witness:
  "usable init (message_sessionId (ex_request ex_call)) = None
   \<and> map_of (sessions init) (sse_sessionId (ex_request ex_call)) = None
   \<and> responses (handleMessage ex_platform (ex_request ex_call) 0 False init) =
       [(0, 500, Envelope (error_envelope ''Failed to create session''))]
   \<and> map_of (sessions (handleMessage ex_platform (ex_request ex_call) 0 False init))
        (message_sessionId (ex_request ex_call)) = None
   \<and> heap (handleSSE (ex_request ex_call) 0 False init) = []
   \<and> map_of (sessions (handleSSE (ex_request ex_call) 0 False init))
        (sse_sessionId (ex_request ex_call)) = None"
proof -
  have h: "usable init (message_sessionId (ex_request ex_call)) = None"
    by (simp add: usable_def init_def)
  have e: "map_of (sessions init) (sse_sessionId (ex_request ex_call)) = None"
    by (simp add: init_def)
  from failed_spawn_leaves_store
         [where s = init and req = "ex_request ex_call" and P = ex_platform and res = 0]
       h e
  show ?thesis
    by (simp add: init_def error_envelope_def)
qed

text \<open>
  The claim as stated fails in two places. Where a disconnected Session is already
  stored: the first request creates the default Session, its child reports an error
  (the Session stays stored, disconnected), and the next request's spawn throws; the
  caller gets the 500 envelope, and a lookup of the id still finds the old Session.
  And through \<open>handleSSE\<close>: on the empty gateway, with a spawn that throws, the caller
  gets status 500 with the body \<open>{error: "Failed to create session"}\<close>, which is no
  JSON-RPC envelope and has no code.
\<close>

theorem failed_spawn_stale_entry:
  "usable ex_errored (message_sessionId (ex_request ex_call)) = None
   \<and> responses (handleMessage ex_platform (ex_request ex_call) 1 False ex_errored) =
       [(1, 500, Envelope (error_envelope ''Failed to create session''))]
   \<and> map_of (sessions (handleMessage ex_platform (ex_request ex_call) 1 False ex_errored))
        (message_sessionId (ex_request ex_call)) = Some 0
   \<and> map_of (sessions init) (sse_sessionId (ex_request ex_call)) = None
   \<and> responses (handleSSE (ex_request ex_call) 0 False init) =
       [(0, 500, Plain (JObj [(js ''error'', JStr (js ''Failed to create session''))]))]"
  by (simp add: ex_errored_def ex_request_def ex_call_def op_defs js_eq_iff)

section \<open>Interception and notifications\<close>

lemma handleMessage_intercepted:
  assumes "id' (body req) = Some i"
    and "method' (body req) = Some (js ''logging/setLevel'')
         \<or> method' (body req) = Some (js ''resources/list'')"
  shows "available s (message_sessionId req) spawn_ok \<Longrightarrow>
           responses (handleMessage P req res spawn_ok s) =
             responses s @
               [(res, 200, Envelope (result_envelope i
                  (if method' (body req) = Some (js ''logging/setLevel'') then JObj []
                   else JObj [(js ''resources'', JArr [])])))]"
    and "stdin (handleMessage P req res spawn_ok s) = stdin s"
    and "timers (handleMessage P req res spawn_ok s) = timers s"
    and "settled (handleMessage P req res spawn_ok s) = settled s"
    and "concat (map pendingRequests (heap (handleMessage P req res spawn_ok s))) =
           concat (map pendingRequests (heap s))"
  using assms
  by (auto simp add: handleMessage_def dispatch_def createSession_def respond_def
        available_def Let_def split: option.splits)

lemma handleMessage_notification:
  assumes "id' (body req) = None"
  shows "available s (message_sessionId req) spawn_ok \<Longrightarrow>
           responses (handleMessage P req res spawn_ok s) =
             responses s @ [(res, 202, Plain (JObj []))]
         \<and> stdin (handleMessage P req res spawn_ok s) =
             stdin s @
               [(process (heap (handleMessage P req res spawn_ok s) !
                            target s (message_sessionId req)),
                 JSON_stringify P (body req) @ [nl])]
         \<and> map_of (sessions (handleMessage P req res spawn_ok s)) (message_sessionId req) =
             Some (target s (message_sessionId req))"
    and "timers (handleMessage P req res spawn_ok s) = timers s"
    and "settled (handleMessage P req res spawn_ok s) = settled s"
    and "concat (map pendingRequests (heap (handleMessage P req res spawn_ok s))) =
           concat (map pendingRequests (heap s))"
  using assms
  by (auto simp add: handleMessage_def dispatch_def createSession_def respond_def
        sendToStdio_def usable_def target_def available_def update_conv' Let_def
        split: option.splits if_splits)

text \<open>
  C5 (as amended). A message with an id whose method is \<open>logging/setLevel\<close> or
  \<open>resources/list\<close> is never written to a child's stdin, registers no pending entry
  and arms no timer. Once \<open>handleMessage\<close> holds a Session (a connected one is
  stored under the id, or the spawn succeeds) the answer is given in the same call:
  status 200 with \<open>{jsonrpc: "2.0", id, result: {}}\<close> for \<open>logging/setLevel\<close> and
  \<open>{jsonrpc: "2.0", id, result: {resources: []}}\<close> for \<open>resources/list\<close>. When it
  holds none (no connected Session and the spawn throws) the answer is the 500 envelope
  of the session-creation failure.
\<close>

theorem interception_answers:
  assumes "id' (body req) = Some i"
    and "method' (body req) = Some (js ''logging/setLevel'')
         \<or> method' (body req) = Some (js ''resources/list'')"
  shows
    "(available s (message_sessionId req) spawn_ok
        \<and> method' (body req) = Some (js ''logging/setLevel'') \<longrightarrow>
        responses (handleMessage P req res spawn_ok s) =
          responses s @
            [(res, 200, Envelope
               \<lparr>jsonrpc = js ''2.0'', id' = Some i, method' = None, params = None,
                result = Some (JObj []), error = None\<rparr>)])
   \<and> (available s (message_sessionId req) spawn_ok
        \<and> method' (body req) = Some (js ''resources/list'') \<longrightarrow>
        responses (handleMessage P req res spawn_ok s) =
          responses s @
            [(res, 200, Envelope
               \<lparr>jsonrpc = js ''2.0'', id' = Some i, method' = None, params = None,
                result = Some (JObj [(js ''resources'', JArr [])]), error = None\<rparr>)])
   \<and> (\<not> available s (message_sessionId req) spawn_ok \<longrightarrow>
        responses (handleMessage P req res spawn_ok s) =
          responses s @
            [(res, 500, Envelope (error_envelope ''Failed to create session''))])
   \<and> stdin (handleMessage P req res spawn_ok s) = stdin s
   \<and> timers (handleMessage P req res spawn_ok s) = timers s
   \<and> concat (map pendingRequests (heap (handleMessage P req res spawn_ok s))) =
       concat (map pendingRequests (heap s))"
proof -
  have "js ''resources/list'' \<noteq> js ''logging/setLevel''"
    by (simp add: js_eq_iff)
  then show ?thesis
    using handleMessage_intercepted [OF assms, where s = s and spawn_ok = spawn_ok and P = P and res = res]
      handleMessage_unavailable [where s = s and req = req and spawn_ok = spawn_ok and P = P and res = res]
    by (auto simp add: result_envelope_def)
qed

theorem interception_answers_witness:
  "id' (body (ex_request ex_setLevel)) = Some (IdNum 1)
   \<and> method' (body (ex_request ex_setLevel)) = Some (js ''logging/setLevel'')
   \<and> available init (message_sessionId (ex_request ex_setLevel)) True
   \<and> responses (handleMessage ex_platform (ex_request ex_setLevel) 0 True init) =
       [(0, 200, Envelope
           \<lparr>jsonrpc = js ''2.0'', id' = Some (IdNum 1), method' = None, params = None,
            result = Some (JObj []), error = None\<rparr>)]
   \<and> stdin (handleMessage ex_platform (ex_request ex_setLevel) 0 True init) = []"
proof -
  have a: "id' (body (ex_request ex_setLevel)) = Some (IdNum 1)"
    by (simp add: ex_request_def ex_setLevel_def ex_call_def)
  have b: "method' (body (ex_request ex_setLevel)) = Some (js ''logging/setLevel'')"
    by (simp add: ex_request_def ex_setLevel_def ex_call_def)
  have c: "available init (message_sessionId (ex_request ex_setLevel)) True"
    by (simp add: available_def)
  from interception_answers [OF a disjI1 [OF b], where s = init and spawn_ok = True and P = ex_platform and res = 0] a b c
  show ?thesis
    by (simp add: init_def)
qed

text \<open>
  The claim as stated ("unconditionally") fails when no Session can be had: on the
  empty store, with a spawn that throws, the \<open>logging/setLevel\<close> request is answered
  with the 500 envelope and not with the empty result.
\<close>

theorem interception_after_failed_spawn:
  "id' (body (ex_request ex_setLevel)) = Some (IdNum 1)
   \<and> method' (body (ex_request ex_setLevel)) = Some (js ''logging/setLevel'')
   \<and> responses (handleMessage ex_platform (ex_request ex_setLevel) 0 False init) =
       [(0, 500, Envelope (error_envelope ''Failed to create session''))]
   \<and> responses (handleMessage ex_platform (ex_request ex_setLevel) 0 False init) \<noteq>
       [(0, 200, Envelope (result_envelope (IdNum 1) (JObj [])))]"
  by (simp add: ex_request_def ex_setLevel_def ex_call_def op_defs js_eq_iff)

text \<open>
  C6 (as amended). A message without an id never registers a pending entry, arms no
  timer and settles no promise. Once \<open>handleMessage\<close> holds a Session, the message
  is written (serialised, with a newline) to the stdin of that Session's child and the
  answer is given in the same call: status 202 with the body \<open>{}\<close>. When it holds
  none, nothing is written and the answer is the 500 envelope of the session-creation
  failure.
\<close>

theorem notification_forwarded:
  assumes "id' (body req) = None"
  shows
    "(available s (message_sessionId req) spawn_ok \<longrightarrow>
        responses (handleMessage P req res spawn_ok s) =
          responses s @ [(res, 202, Plain (JObj []))]
        \<and> stdin (handleMessage P req res spawn_ok s) =
            stdin s @
              [(process (heap (handleMessage P req res spawn_ok s) !
                           target s (message_sessionId req)),
                JSON_stringify P (body req) @ [nl])]
        \<and> map_of (sessions (handleMessage P req res spawn_ok s)) (message_sessionId req) =
            Some (target s (message_sessionId req)))
   \<and> (\<not> available s (message_sessionId req) spawn_ok \<longrightarrow>
        responses (handleMessage P req res spawn_ok s) =
          responses s @
            [(res, 500, Envelope (error_envelope ''Failed to create session''))]
        \<and> stdin (handleMessage P req res spawn_ok s) = stdin s)
   \<and> concat (map pendingRequests (heap (handleMessage P req res spawn_ok s))) =
       concat (map pendingRequests (heap s))
   \<and> timers (handleMessage P req res spawn_ok s) = timers s
   \<and> settled (handleMessage P req res spawn_ok s) = settled s"
  using handleMessage_notification [OF assms, where s = s and spawn_ok = spawn_ok and P = P and res = res]
    handleMessage_unavailable [where s = s and req = req and spawn_ok = spawn_ok and P = P and res = res]
  by auto

theorem notification_forwarded_witness:
  "id' (body (ex_request ex_notification)) = None
   \<and> available ex_listening (message_sessionId (ex_request ex_notification)) False
   \<and> responses (handleMessage ex_platform (ex_request ex_notification) 2 False ex_listening) =
       [(2, 202, Plain (JObj []))]
   \<and> stdin (handleMessage ex_platform (ex_request ex_notification) 2 False ex_listening) =
       [(0, JSON_stringify ex_platform ex_call @ [nl]),
        (0, JSON_stringify ex_platform ex_notification @ [nl])]"
proof -
  have a: "id' (body (ex_request ex_notification)) = None"
    by (simp add: ex_request_def ex_notification_def)
  have t: "usable ex_listening (message_sessionId (ex_request ex_notification)) = Some 0"
    by (simp add: ex_listening_eval usable_def message_sessionId_def or_js_def or_default_def
          defaultSessionId_def ex_request_def)
  then have c: "available ex_listening (message_sessionId (ex_request ex_notification)) False"
    by (simp add: available_def)
  have h: "heap (handleMessage ex_platform (ex_request ex_notification) 2 False ex_listening)
             = heap ex_listening"
    using t a by (simp add: handleMessage_def dispatch_def respond_def sendToStdio_def)
  from notification_forwarded [OF a, where s = ex_listening and spawn_ok = False and P = ex_platform and res = 2] a c t h
  show ?thesis
    by (simp add: target_def ex_listening_eval ex_request_def)
qed

text \<open>
  The claim as stated ("for every message posted without an id") fails when no Session
  can be had: on the empty store, with a spawn that throws, the notification is
  answered with status 500 and nothing is written to any stdin.
\<close>

theorem notification_after_failed_spawn:
  "id' (body (ex_request ex_notification)) = None
   \<and> responses (handleMessage ex_platform (ex_request ex_notification) 0 False init) =
       [(0, 500, Envelope (error_envelope ''Failed to create session''))]
   \<and> stdin (handleMessage ex_platform (ex_request ex_notification) 0 False init) = []"
  by (simp add: ex_request_def ex_notification_def op_defs js_eq_iff)

text \<open>
  C9 (as amended). Interception looks at the method only under
  \<open>message.id !== undefined\<close>. A message without an id whose method is
  \<open>logging/setLevel\<close> or \<open>resources/list\<close> is not intercepted and is handled as
  every notification is: whatever another notification \<open>m\<close> would get from the same
  call (the answer, the Sessions, the store, the timers), it gets too. Once
  \<open>handleMessage\<close> holds a Session (a connected one is stored under the id, or the
  spawn succeeds), the message is written, serialised and with a newline, to the stdin
  of that Session's child, and the call answers status 202 with the body \<open>{}\<close>. When
  it holds none (no connected Session and the spawn throws), nothing is written and the
  answer is the 500 envelope of the session-creation failure. The call gives exactly
  one answer, and in neither case is it an interception answer: its status is not 200
  and it carries no result.
\<close>

theorem notification_never_intercepted:
  assumes "id' (body req) = None"
    and "method' (body req) = Some (js ''logging/setLevel'')
         \<or> method' (body req) = Some (js ''resources/list'')"
  shows
    "(\<forall>m. id' m = None \<longrightarrow>
        handleMessage P req res spawn_ok s =
          (handleMessage P (req\<lparr>body := m\<rparr>) res spawn_ok s)
            \<lparr>stdin := stdin (handleMessage P req res spawn_ok s)\<rparr>)
   \<and> (available s (message_sessionId req) spawn_ok \<longrightarrow>
        responses (handleMessage P req res spawn_ok s) =
          responses s @ [(res, 202, Plain (JObj []))]
        \<and> stdin (handleMessage P req res spawn_ok s) =
            stdin s @
              [(process (heap (handleMessage P req res spawn_ok s) !
                           target s (message_sessionId req)),
                JSON_stringify P (body req) @ [0x0A])]
        \<and> map_of (sessions (handleMessage P req res spawn_ok s)) (message_sessionId req) =
            Some (target s (message_sessionId req)))
   \<and> (\<not> available s (message_sessionId req) spawn_ok \<longrightarrow>
        responses (handleMessage P req res spawn_ok s) =
          responses s @
            [(res, 500, Envelope
                \<lparr>jsonrpc = js ''2.0'', id' = None, method' = None, params = None,
                 result = None,
                 error = Some (JObj [(js ''code'', JNum (- 32603)),
                                     (js ''message'',
                                      JStr (js ''Failed to create session''))])\<rparr>)]
        \<and> stdin (handleMessage P req res spawn_ok s) = stdin s)
   \<and> (\<exists>status b.
        responses (handleMessage P req res spawn_ok s) = responses s @ [(res, status, b)]
        \<and> status \<noteq> 200
        \<and> (\<forall>e. b = Envelope e \<longrightarrow> result e = None))"
proof -
  have same: "handleMessage P req res spawn_ok s =
          (handleMessage P (req\<lparr>body := m\<rparr>) res spawn_ok s)
            \<lparr>stdin := stdin (handleMessage P req res spawn_ok s)\<rparr>" if "id' m = None" for m
    using that assms(1)
    by (auto simp add: handleMessage_def dispatch_def createSession_def respond_def
          sendToStdio_def message_sessionId_def Let_def split: option.splits)
  have fwd: "responses (handleMessage P req res spawn_ok s) =
          responses s @ [(res, 202, Plain (JObj []))]
        \<and> stdin (handleMessage P req res spawn_ok s) =
            stdin s @
              [(process (heap (handleMessage P req res spawn_ok s) !
                           target s (message_sessionId req)),
                JSON_stringify P (body req) @ [0x0A])]
        \<and> map_of (sessions (handleMessage P req res spawn_ok s)) (message_sessionId req) =
            Some (target s (message_sessionId req))"
    if "available s (message_sessionId req) spawn_ok"
    using handleMessage_notification(1)
            [OF assms(1) that, where P = P and res = res]
    by (simp add: nl_def)
  have fail: "responses (handleMessage P req res spawn_ok s) =
          responses s @
            [(res, 500, Envelope
                \<lparr>jsonrpc = js ''2.0'', id' = None, method' = None, params = None,
                 result = None,
                 error = Some (JObj [(js ''code'', JNum (- 32603)),
                                     (js ''message'',
                                      JStr (js ''Failed to create session''))])\<rparr>)]
        \<and> stdin (handleMessage P req res spawn_ok s) = stdin s"
    if "\<not> available s (message_sessionId req) spawn_ok"
    using that by (simp add: handleMessage_unavailable error_envelope_def)
  have one: "\<exists>status b.
        responses (handleMessage P req res spawn_ok s) = responses s @ [(res, status, b)]
        \<and> status \<noteq> 200
        \<and> (\<forall>e. b = Envelope e \<longrightarrow> result e = None)"
  proof (cases "available s (message_sessionId req) spawn_ok")
    case True
    with fwd show ?thesis by simp
  next
    case False
    with fail show ?thesis by simp
  qed
  from same fwd fail one show ?thesis by blast
qed

theorem notification_never_intercepted_witness:
  "id' (body (ex_request ex_silent)) = None
   \<and> method' (body (ex_request ex_silent)) = Some (js ''logging/setLevel'')
   \<and> available init (message_sessionId (ex_request ex_silent)) True
   \<and> responses (handleMessage ex_platform (ex_request ex_silent) 0 True init) =
       [(0, 202, Plain (JObj []))]
   \<and> stdin (handleMessage ex_platform (ex_request ex_silent) 0 True init) =
       [(0, JSON_stringify ex_platform ex_silent @ [0x0A])]"
proof -
  have a: "id' (body (ex_request ex_silent)) = None"
    by (simp add: ex_request_def ex_silent_def ex_notification_def)
  have b: "method' (body (ex_request ex_silent)) = Some (js ''logging/setLevel'')"
    by (simp add: ex_request_def ex_silent_def ex_notification_def)
  have c: "available init (message_sessionId (ex_request ex_silent)) True"
    by (simp add: available_def)
  have h: "heap (handleMessage ex_platform (ex_request ex_silent) 0 True init) ! 0 =
             \<lparr>session_id = js ''default-session'', process = 0, messageBuffer = [],
              sseResponse = None, pendingRequests = [], connected = True\<rparr>"
    using a by (simp add: op_defs ex_request_def)
  have t: "target init (message_sessionId (ex_request ex_silent)) = 0"
    by (simp add: target_def usable_def init_def)
  from notification_never_intercepted [OF a disjI1 [OF b], where P = ex_platform and res = 0 and spawn_ok = True and s = init] c h t
  show ?thesis
    using a b by (simp add: init_def ex_request_def)
qed

text \<open>
  The claim as stated ("it is forwarded to the backend process's stdin and acknowledged
  with HTTP 202") fails when no Session can be had: on the empty store, with a spawn
  that throws, the \<open>logging/setLevel\<close> notification is answered with status 500 and
  nothing is written to any stdin.
\<close>

theorem silent_notification_after_failed_spawn:
  "id' (body (ex_request ex_silent)) = None
   \<and> method' (body (ex_request ex_silent)) = Some (js ''logging/setLevel'')
   \<and> responses (handleMessage ex_platform (ex_request ex_silent) 0 False init) =
       [(0, 500, Envelope (error_envelope ''Failed to create session''))]
   \<and> stdin (handleMessage ex_platform (ex_request ex_silent) 0 False init) = []"
  by (simp add: ex_request_def ex_silent_def ex_notification_def op_defs js_eq_iff)

section \<open>The SSE sink\<close>

lemma attach_simps:
  "heap (attach r res s) = (heap s)[r := (heap s ! r)\<lparr>sseResponse := Some res\<rparr>]"
  "sessions (attach r res s) = sessions s"
  "sseWrites (attach r res s) = sseWrites s @ [(res, js '':ok'' @ [nl, nl])]"
  "responses (attach r res s) = responses s"
  "stdin (attach r res s) = stdin s"
  "map_of (closeHandlers (attach r res s)) res = Some r"
  by (simp_all add: attach_def modify_def update_conv' Let_def)

text \<open>
  C7. Let a Session be stored under the id of a new SSE connection and hold an older
  response as its sink. \<open>handleSSE\<close> makes the new response the sink (and registers
  its close handler), so a backend message dispatched afterwards is written to the new
  response and to no other. The close handler of the old connection then changes
  nothing: the sink is still the new response and the next message still goes to it.
  The close of the new connection itself does clear the sink.
\<close>

theorem sse_sink_replaced:
  assumes "map_of (sessions s) (sse_sessionId req) = Some r"
    and "r < length (heap s)"
    and "sseResponse (heap s ! r) = Some old"
    and "old \<noteq> new"
  shows
    "sseResponse (heap (handleSSE req new spawn_ok s) ! r) = Some new
   \<and> map_of (closeHandlers (handleSSE req new spawn_ok s)) new = Some r
   \<and> sseWrites (handleStdioMessage P r m (handleSSE req new spawn_ok s)) =
       sseWrites (handleSSE req new spawn_ok s) @ [(new, sse_frame P m)]
   \<and> onClose r old (handleSSE req new spawn_ok s) = handleSSE req new spawn_ok s
   \<and> sseWrites (handleStdioMessage P r m (onClose r old (handleSSE req new spawn_ok s))) =
       sseWrites (handleSSE req new spawn_ok s) @ [(new, sse_frame P m)]
   \<and> sseResponse (heap (onClose r new (handleSSE req new spawn_ok s)) ! r) = None"
proof -
  let ?s1 = "handleSSE req new spawn_ok s"
  have s1: "?s1 = attach r new s"
    using assms(1) by (simp add: handleSSE_def)
  have sink: "sseResponse (heap ?s1 ! r) = Some new"
    using assms(2) by (simp add: s1 attach_simps)
  have len: "r < length (heap ?s1)"
    using assms(2) by (simp add: s1 attach_simps)
  have push: "sseWrites (handleStdioMessage P r m ?s1) = sseWrites ?s1 @ [(new, sse_frame P m)]"
    using sink len
    by (auto simp add: handleStdioMessage_def modify_simps resolve_simps Let_def
          split: option.splits)
  have stale: "onClose r old ?s1 = ?s1"
    using sink assms(4) by (simp add: onClose_def)
  have own: "sseResponse (heap (onClose r new ?s1) ! r) = None"
    using sink len by (simp add: onClose_def modify_simps)
  from sink push stale own show ?thesis
    by (simp add: s1 attach_simps)
qed

theorem sse_sink_replaced_witness:
  "map_of (sessions ex_listening) (sse_sessionId (ex_request ex_call)) = Some 0
   \<and> 0 < length (heap ex_listening)
   \<and> sseResponse (heap ex_listening ! 0) = Some 1
   \<and> (1::nat) \<noteq> 2
   \<and> sseResponse (heap (handleSSE (ex_request ex_call) 2 False ex_listening) ! 0) = Some 2
   \<and> sseWrites (handleStdioMessage ex_platform 0 ex_reply
        (onClose 0 1 (handleSSE (ex_request ex_call) 2 False ex_listening))) =
       [(1, js '':ok'' @ [nl, nl]), (2, js '':ok'' @ [nl, nl]),
        (2, sse_frame ex_platform ex_reply)]"
proof -
  have a: "map_of (sessions ex_listening) (sse_sessionId (ex_request ex_call)) = Some 0"
    by (simp add: ex_listening_eval sse_sessionId_def or_js_def or_default_def
          defaultSessionId_def ex_request_def)
  have b: "0 < length (heap ex_listening)"
    by (simp add: ex_listening_eval)
  have c: "sseResponse (heap ex_listening ! 0) = Some 1"
    by (simp add: ex_listening_eval)
  have d: "(1::nat) \<noteq> 2"
    by simp
  have w: "sseWrites (handleSSE (ex_request ex_call) 2 False ex_listening) =
             [(1, js '':ok'' @ [nl, nl]), (2, js '':ok'' @ [nl, nl])]"
    using a by (simp add: handleSSE_def attach_simps ex_listening_eval)
  from sse_sink_replaced [OF a b c d, where spawn_ok = False and P = ex_platform and m = ex_reply]
    a b c d w
  show ?thesis
    by simp
qed

section \<open>Exit and error of the child\<close>

lemma onTimeout_fires:
  assumes "t_session t < length (heap s)"
    and "map_of (pendingRequests (heap s ! t_session t)) (t_id t) \<noteq> None"
    and "t_resolve t \<notin> set (settled s)"
  shows "responses (onTimeout t s) =
           responses s @ [(t_resolve t, 200, Envelope (timeout_envelope (t_id t)))]
       \<and> map_of (pendingRequests (heap (onTimeout t s) ! t_session t)) (t_id t) = None"
  using assms
  by (auto simp add: onTimeout_def modify_simps resolve_simps resolve_fresh delete_conv')

lemma step_keeps_entries:
  assumes "map_of (sessions s) k \<noteq> None"
    and "\<forall>r. e \<noteq> ProcExit r" and "e \<noteq> Shutdown"
  shows "map_of (sessions (step P s e)) k \<noteq> None"
proof (cases e)
  case (Post req res ok)
  then show ?thesis
    using assms(1)
    by (auto simp add: handleMessage_def dispatch_def submit_def createSession_def respond_def
          sendToStdio_def setTimeout_def registerPending_def modify_simps update_conv' Let_def
          split: option.splits if_splits)
next
  case (Sse req res ok)
  then show ?thesis
    using assms(1)
    by (auto simp add: handleSSE_def createSession_def respond_def attach_simps update_conv'
          Let_def split: option.splits if_splits)
next
  case (StdoutData r d)
  have "sessions (foldl (handleLine P r) s0 ls) = sessions s0" for s0 ls
    by (induction ls arbitrary: s0)
      (auto simp add: handleLine_def handleStdioMessage_def modify_simps resolve_simps Let_def
         split: option.splits)
  then show ?thesis
    using assms(1) StdoutData by (simp add: handleStdioData_def modify_simps Let_def)
next
  case (ProcError r)
  then show ?thesis
    using assms(1) by (simp add: onError_def modify_simps)
next
  case (ProcExit r)
  then show ?thesis
    using assms(2) by simp
next
  case (Timeout res)
  then show ?thesis
    using assms(1)
    by (auto simp add: onTimeout_def modify_simps resolve_simps split: option.splits)
next
  case (ReqClose res)
  then show ?thesis
    using assms(1) by (auto simp add: onClose_def modify_simps split: option.splits)
next
  case Shutdown
  then show ?thesis
    using assms(3) by simp
qed

text \<open>
  C10. The \<open>error\<close> handler of a child marks its Session disconnected and leaves the
  Session Store as it is, so the Session stays stored under its id; the \<open>exit\<close>
  handler is the one that deletes the entry. No other callback and no request removes
  an entry (the shutdown \<open>close()\<close> empties the whole store). \<open>handleSSE\<close> only
  looks the id up: it takes the stored Session although it is disconnected, attaches
  the response to it, and creates no Session, whether a spawn would succeed or not.
\<close>

theorem error_keeps_session_stored:
  assumes "map_of (sessions s) sessionId = Some r"
    and "r < length (heap s)"
  shows
    "connected (heap (onError r s) ! r) = False
   \<and> sessions (onError r s) = sessions s
   \<and> map_of (sessions (onError r s)) sessionId = Some r
   \<and> usable (onError r s) sessionId = None
   \<and> (sse_sessionId req = sessionId \<longrightarrow>
        handleSSE req res spawn_ok (onError r s) = attach r res (onError r s)
        \<and> length (heap (handleSSE req res spawn_ok (onError r s))) = length (heap s)
        \<and> map_of (sessions (handleSSE req res spawn_ok (onError r s))) sessionId = Some r
        \<and> connected (heap (handleSSE req res spawn_ok (onError r s)) ! r) = False
        \<and> sseResponse (heap (handleSSE req res spawn_ok (onError r s)) ! r) = Some res)
   \<and> map_of (sessions (onExit r s)) (session_id (heap s ! r)) = None
   \<and> (\<forall>e. (\<forall>r'. e \<noteq> ProcExit r') \<and> e \<noteq> Shutdown \<longrightarrow>
          map_of (sessions (step P (onError r s) e)) sessionId \<noteq> None)"
proof -
  have h: "heap (onError r s) = (heap s)[r := (heap s ! r)\<lparr>connected := False\<rparr>]"
    and st: "sessions (onError r s) = sessions s"
    by (simp_all add: onError_def modify_simps)
  have sse: "handleSSE req res spawn_ok (onError r s) = attach r res (onError r s)"
    if "sse_sessionId req = sessionId"
    using that assms(1) by (simp add: handleSSE_def st)
  have ex: "map_of (sessions (onExit r s)) (session_id (heap s ! r)) = None"
    by (simp add: onExit_def modify_simps delete_conv' Let_def)
  have keep: "map_of (sessions (step P (onError r s) e)) sessionId \<noteq> None"
    if "\<forall>r'. e \<noteq> ProcExit r'" "e \<noteq> Shutdown" for e
    using step_keeps_entries [OF _ that, where s = "onError r s" and k = sessionId and P = P]
      assms(1) by (simp add: st)
  from assms h st sse ex keep show ?thesis
    by (auto simp add: usable_def attach_simps)
qed

theorem error_keeps_session_stored_witness:
  "map_of (sessions ex_listening) (js ''default-session'') = Some 0
   \<and> 0 < length (heap ex_listening)
   \<and> sse_sessionId (ex_request ex_call) = js ''default-session''
   \<and> connected (heap (onError 0 ex_listening) ! 0) = False
   \<and> map_of (sessions (onError 0 ex_listening)) (js ''default-session'') = Some 0
   \<and> length (heap (handleSSE (ex_request ex_call) 2 True (onError 0 ex_listening))) = 1
   \<and> sseResponse (heap (handleSSE (ex_request ex_call) 2 True (onError 0 ex_listening)) ! 0)
       = Some 2"
proof -
  have a: "map_of (sessions ex_listening) (js ''default-session'') = Some 0"
    by (simp add: ex_listening_eval)
  have b: "0 < length (heap ex_listening)"
    by (simp add: ex_listening_eval)
  have c: "sse_sessionId (ex_request ex_call) = js ''default-session''"
    by (simp add: sse_sessionId_def or_js_def or_default_def defaultSessionId_def ex_request_def)
  from error_keeps_session_stored [OF a b, where req = "ex_request ex_call" and res = 2
      and spawn_ok = True and P = ex_platform] a b c
  show ?thesis
    by (simp add: ex_listening_eval onError_def modify_def attach_def Let_def)
qed

section \<open>The frame decoder\<close>

lemma bytes_simps: "bytes [] = []" "bytes (c # cs) = of_char c # bytes cs"
  by (simp_all add: bytes_def)

lemma split_nl_no_newline: "nl \<notin> set l \<Longrightarrow> split_nl l = [l]"
  by (induction l) auto

lemma last_split_nl_no_newline: "nl \<notin> set (last (split_nl l))"
  by (induction l) (auto simp add: split_nl_not_Nil split: list.splits)

lemma split_nl_append:
  "split_nl (a @ b) = butlast (split_nl a) @ split_nl (last (split_nl a) @ b)"
proof (induction a)
  case Nil
  show ?case by simp
next
  case (Cons c cs)
  obtain l ls where L: "split_nl cs = l # ls"
    using split_nl_not_Nil [of cs] by (cases "split_nl cs") auto
  show ?case
  proof (cases "c = nl")
    case True
    with Cons L show ?thesis by simp
  next
    case False
    show ?thesis
    proof (cases ls)
      case Nil
      with False Cons L show ?thesis by simp
    next
      case (Cons l' ls')
      with False Cons.IH L show ?thesis by simp
    qed
  qed
qed

lemma split_nl_framed:
  "\<forall>l \<in> set ls. nl \<notin> set l \<Longrightarrow> split_nl (framed ls @ rest) = ls @ split_nl rest"
proof (induction ls)
  case Nil
  show ?case by (simp add: framed_def)
next
  case (Cons l ls)
  have "split_nl (l @ nl # t) = l # split_nl t" for t
    using Cons.prems by (induction l) auto
  with Cons show ?case
    by (simp add: framed_def)
qed

lemma nth_update_field:
  "f (g (hs ! r)) = f (hs ! r) \<Longrightarrow> f (hs[r := g (hs ! r)] ! k) = f (hs ! k)"
  by (cases "r < length hs"; cases "k = r") (simp_all add: list_update_beyond)

lemma handleStdioMessage_frame:
  "length (heap (handleStdioMessage P r m s)) = length (heap s)"
  "messageBuffer (heap (handleStdioMessage P r m s) ! k) = messageBuffer (heap s ! k)"
  by (auto simp add: handleStdioMessage_def modify_simps resolve_simps Let_def nth_update_field
        split: option.splits)

lemma handleLine_frame:
  "length (heap (handleLine P r s l)) = length (heap s)"
  "messageBuffer (heap (handleLine P r s l) ! k) = messageBuffer (heap s ! k)"
  by (auto simp add: handleLine_def handleStdioMessage_frame split: option.splits)

lemma foldl_handleLine_frame:
  "length (heap (foldl (handleLine P r) s ls)) = length (heap s)"
  "messageBuffer (heap (foldl (handleLine P r) s ls) ! k) = messageBuffer (heap s ! k)"
  by (induction ls arbitrary: s) (simp_all add: handleLine_frame)

text \<open>Storing the carried-over fragment and handling a line do not interfere.\<close>

lemma Session_update_order:
  "x\<lparr>messageBuffer := b, pendingRequests := p\<rparr> = x\<lparr>pendingRequests := p, messageBuffer := b\<rparr>"
  by (cases x) simp

lemma handleStdioMessage_buffer:
  "handleStdioMessage P r m (modify r (\<lambda>x. x\<lparr>messageBuffer := b\<rparr>) s) =
   modify r (\<lambda>x. x\<lparr>messageBuffer := b\<rparr>) (handleStdioMessage P r m s)"
proof (cases "r < length (heap s)")
  case True
  then show ?thesis
    by (auto simp add: handleStdioMessage_def modify_def resolve_def Let_def
          Session_update_order split: option.splits)
next
  case False
  then show ?thesis
    by (auto simp add: handleStdioMessage_def modify_def resolve_def Let_def
          list_update_beyond split: option.splits)
qed

lemma handleLine_buffer:
  "handleLine P r (modify r (\<lambda>x. x\<lparr>messageBuffer := b\<rparr>) s) l =
   modify r (\<lambda>x. x\<lparr>messageBuffer := b\<rparr>) (handleLine P r s l)"
  by (simp add: handleLine_def handleStdioMessage_buffer split: option.splits)

lemma foldl_handleLine_buffer:
  "foldl (handleLine P r) (modify r (\<lambda>x. x\<lparr>messageBuffer := b\<rparr>) s) ls =
   modify r (\<lambda>x. x\<lparr>messageBuffer := b\<rparr>) (foldl (handleLine P r) s ls)"
  by (induction ls arbitrary: s) (simp_all add: handleLine_buffer)

lemma modify_buffer_twice:
  "modify r (\<lambda>x. x\<lparr>messageBuffer := b\<rparr>) (modify r (\<lambda>x. x\<lparr>messageBuffer := a\<rparr>) s) =
   modify r (\<lambda>x. x\<lparr>messageBuffer := b\<rparr>) s"
  by (cases "r < length (heap s)") (simp_all add: modify_def list_update_beyond)

lemma modify_buffer_same:
  "messageBuffer (heap s ! r) = b \<Longrightarrow> modify r (\<lambda>x. x\<lparr>messageBuffer := b\<rparr>) s = s"
  by (auto simp add: modify_def)

lemma handleStdioData_feed: "handleStdioData P r data s = feed P r (toString data) s"
  by (simp add: handleStdioData_def feed_def)

lemma feed_frame:
  "length (heap (feed P r text s)) = length (heap s)"
  by (simp add: feed_def Let_def foldl_handleLine_frame modify_simps)

text \<open>
  After every decode step the buffer of the Session is the piece after the last newline
  of what has arrived: it holds no newline.
\<close>

lemma feed_buffer:
  assumes "r < length (heap s)"
  shows "messageBuffer (heap (feed P r text s) ! r) =
           last (split_nl (messageBuffer (heap s ! r) @ text))"
    and "nl \<notin> set (messageBuffer (heap (feed P r text s) ! r))"
proof -
  show "messageBuffer (heap (feed P r text s) ! r) =
           last (split_nl (messageBuffer (heap s ! r) @ text))"
    using assms
    by (simp add: feed_def Let_def foldl_handleLine_frame modify_simps pop_or_empty_def
          split_nl_not_Nil)
  then show "nl \<notin> set (messageBuffer (heap (feed P r text s) ! r))"
    by (simp add: last_split_nl_no_newline)
qed

text \<open>Decoded text may be cut anywhere: feeding two pieces is feeding their concatenation.\<close>

lemma feed_append:
  assumes "r < length (heap s)"
  shows "feed P r (a @ b) s = feed P r b (feed P r a s)"
proof -
  let ?L = "split_nl (messageBuffer (heap s ! r) @ a)"
  let ?M = "split_nl (last ?L @ b)"
  have all: "split_nl (messageBuffer (heap s ! r) @ a @ b) = butlast ?L @ ?M"
    using split_nl_append [of "messageBuffer (heap s ! r) @ a" b] by simp
  have M: "?M \<noteq> []"
    by (rule split_nl_not_Nil)
  have buf: "messageBuffer (heap (feed P r a s) ! r) = last ?L"
    by (rule feed_buffer(1) [OF assms])
  have "feed P r b (feed P r a s) =
          foldl (handleLine P r)
            (modify r (\<lambda>x. x\<lparr>messageBuffer := last ?M\<rparr>) (feed P r a s)) (butlast ?M)"
    by (simp add: feed_def [of P r b] buf Let_def pop_or_empty_def M)
  also have "modify r (\<lambda>x. x\<lparr>messageBuffer := last ?M\<rparr>) (feed P r a s) =
          foldl (handleLine P r) (modify r (\<lambda>x. x\<lparr>messageBuffer := last ?M\<rparr>) s) (butlast ?L)"
    by (simp add: feed_def [of P r a] Let_def foldl_handleLine_buffer modify_buffer_twice)
  finally have "feed P r b (feed P r a s) =
          foldl (handleLine P r) (modify r (\<lambda>x. x\<lparr>messageBuffer := last ?M\<rparr>) s)
            (butlast ?L @ butlast ?M)"
    by simp
  moreover have "feed P r (a @ b) s =
          foldl (handleLine P r) (modify r (\<lambda>x. x\<lparr>messageBuffer := last ?M\<rparr>) s)
            (butlast ?L @ butlast ?M)"
    using M by (simp add: feed_def [of P r "a @ b"] all Let_def pop_or_empty_def butlast_append)
  ultimately show ?thesis by simp
qed

lemma feed_empty:
  "nl \<notin> set (messageBuffer (heap s ! r)) \<Longrightarrow> feed P r [] s = s"
  by (simp add: feed_def split_nl_no_newline pop_or_empty_def modify_buffer_same)

lemma feed_chunks:
  assumes "r < length (heap s)" and "nl \<notin> set (messageBuffer (heap s ! r))"
  shows "foldl (\<lambda>s t. feed P r t s) s ts = feed P r (concat ts) s"
  using assms
proof (induction ts arbitrary: s)
  case Nil
  then show ?case by (simp add: feed_empty)
next
  case (Cons t ts)
  have "foldl (\<lambda>s t. feed P r t s) (feed P r t s) ts = feed P r (concat ts) (feed P r t s)"
    using Cons.prems by (intro Cons.IH) (simp_all add: feed_frame feed_buffer(2))
  with Cons.prems show ?case
    by (simp add: feed_append)
qed

text \<open>
  Text made of newline-terminated lines, arriving in any pieces at a Session whose
  buffer is empty: every line is handled, in order (a blank line and a line that does
  not parse are skipped, the others dispatched), and the buffer is empty again.
\<close>

lemma feed_framed:
  assumes "r < length (heap s)" and "messageBuffer (heap s ! r) = []"
    and "concat ts = framed ls" and "\<forall>l \<in> set ls. nl \<notin> set l"
  shows "foldl (\<lambda>s t. feed P r t s) s ts = foldl (handleLine P r) s ls"
proof -
  have "split_nl (framed ls @ []) = ls @ split_nl []"
    by (rule split_nl_framed [OF assms(4)])
  then have sp: "split_nl (framed ls) = ls @ [[]]"
    by simp
  have "foldl (\<lambda>s t. feed P r t s) s ts = feed P r (framed ls) s"
    using feed_chunks [OF assms(1), of P ts] assms(2,3) by simp
  also have "\<dots> = foldl (handleLine P r) s ls"
    using assms(2) by (simp add: feed_def sp pop_or_empty_def modify_buffer_same)
  finally show ?thesis .
qed

text \<open>
  Byte chunks are decoded one by one. Where decoding the chunks apart gives the text of
  the whole (as for chunks of ASCII bytes), the chunk boundaries do not matter.
\<close>

lemma toString_ascii:
  "\<forall>b \<in> set bs. b < 0x80 \<Longrightarrow> toString bs = map (\<lambda>b. of_nat (unat b)) bs"
  by (induction bs) auto

lemma toString_ascii_chunks:
  "\<forall>c \<in> set cs. \<forall>b \<in> set c. b < 0x80 \<Longrightarrow> concat (map toString cs) = toString (concat cs)"
  by (simp add: toString_ascii map_concat cong: map_cong)

lemma handleStdioData_chunks:
  assumes "r < length (heap s)" and "messageBuffer (heap s ! r) = []"
    and "concat (map toString cs) = framed ls" and "\<forall>l \<in> set ls. nl \<notin> set l"
  shows "foldl (\<lambda>s c. handleStdioData P r c s) s cs = foldl (handleLine P r) s ls"
proof -
  have "foldl (\<lambda>s c. handleStdioData P r c s) s cs =
          foldl (\<lambda>s t. feed P r t s) s (map toString cs)"
    by (simp add: handleStdioData_feed foldl_map)
  with feed_framed [OF assms(1,2,3,4)] show ?thesis
    by simp
qed

lemma ex_waiting_eval:
  "ex_waiting =
     \<lparr>heap = [\<lparr>session_id = js ''default-session'', process = 0, messageBuffer = [],
               sseResponse = None, pendingRequests = [(IdNum 1, 0)], connected = True\<rparr>],
      sessions = [(js ''default-session'', 0)],
      stdin = [(0, JSON_stringify ex_platform ex_call @ [nl])],
      settled = [], responses = [], headers = [], sseWrites = [],
      timers = [\<lparr>t_session = 0, t_id = IdNum 1, t_resolve = 0, t_delay = 30000\<rparr>],
      closeHandlers = [], killed = []\<rparr>"
  by (simp add: ex_waiting_def ex_request_def ex_call_def op_defs js_eq_iff)

lemma ex_chunks_decoded:
  "toString (ex_chunk1 @ ex_chunk2) = ex_text_line @ [nl]"
  "toString ex_chunk1 @ toString ex_chunk2 = ex_garbled_line @ [nl]"
  by (simp_all add: ex_chunk1_def ex_chunk2_def ex_text_line_def ex_garbled_line_def
        bytes_simps js_simps nl_def cont_def utf16_def)

lemma ex_lines:
  "nl \<notin> set ex_text_line" "nl \<notin> set ex_garbled_line"
  "trim ex_text_line \<noteq> []" "trim ex_garbled_line \<noteq> []"
  "JSON_parse ex_platform ex_text_line = Some ex_text_reply"
  "JSON_parse ex_platform ex_garbled_line = Some ex_garbled_reply"
  by (simp_all add: ex_text_line_def ex_garbled_line_def ex_reply_line_def ex_platform_def
        js_simps nl_def trim_def is_space_def)

text \<open>
  C2. The claim fails on the code at a chunk boundary inside a multi-byte character.
  \<open>handleStdioData\<close> decodes every chunk by itself (\<open>data.toString()\<close>) before it
  appends to the buffer, so the two bytes C3 A9 of the letter U+00E9, arriving in two
  chunks, become two replacement characters U+FFFD. The bytes below are one
  newline-terminated JSON document, the reply to the request waiting on response 0.
  Delivered in one chunk, the document is dispatched and answers the request. Delivered
  in two chunks that split the letter, another document is dispatched: the request is
  answered with a result the backend never sent.
\<close>

theorem split_character_garbles_frame:
  "toString (ex_chunk1 @ ex_chunk2) = ex_text_line @ [nl]
   \<and> JSON_parse ex_platform ex_text_line = Some ex_text_reply
   \<and> responses (run ex_platform ex_waiting [StdoutData 0 (ex_chunk1 @ ex_chunk2)]) =
       [(0, 200, Envelope ex_text_reply)]
   \<and> responses (run ex_platform ex_waiting [StdoutData 0 ex_chunk1, StdoutData 0 ex_chunk2]) =
       [(0, 200, Envelope ex_garbled_reply)]
   \<and> result ex_text_reply = Some (JStr [0xE9])
   \<and> result ex_garbled_reply = Some (JStr [0xFFFD, 0xFFFD])"
proof -
  have len: "0 < length (heap ex_waiting)" and buf: "messageBuffer (heap ex_waiting ! 0) = []"
    by (simp_all add: ex_waiting_eval)
  have one: "foldl (\<lambda>s c. handleStdioData ex_platform 0 c s) ex_waiting [ex_chunk1 @ ex_chunk2] =
               foldl (handleLine ex_platform 0) ex_waiting [ex_text_line]"
    by (rule handleStdioData_chunks [OF len buf])
      (simp_all add: ex_chunks_decoded ex_lines framed_def)
  have two: "foldl (\<lambda>s c. handleStdioData ex_platform 0 c s) ex_waiting [ex_chunk1, ex_chunk2] =
               foldl (handleLine ex_platform 0) ex_waiting [ex_garbled_line]"
    by (rule handleStdioData_chunks [OF len buf])
      (simp_all add: ex_chunks_decoded ex_lines framed_def)
  have r1: "responses (run ex_platform ex_waiting [StdoutData 0 (ex_chunk1 @ ex_chunk2)]) =
              [(0, 200, Envelope ex_text_reply)]"
    using one len
    by (simp add: run_def handleLine_def ex_lines handleStdioMessage_def resolve_def modify_def
          ex_waiting_eval ex_text_reply_def)
  have r2: "responses (run ex_platform ex_waiting [StdoutData 0 ex_chunk1, StdoutData 0 ex_chunk2]) =
              [(0, 200, Envelope ex_garbled_reply)]"
    using two len
    by (simp add: run_def handleLine_def ex_lines handleStdioMessage_def resolve_def modify_def
          ex_waiting_eval ex_garbled_reply_def handleStdioData_feed feed_frame)
  from r1 r2 show ?thesis
    by (simp add: ex_chunks_decoded ex_lines ex_text_reply_def ex_garbled_reply_def)
qed

section \<open>Request and timeout\<close>

lemma ex_reply_bytes:
  \<open>toString (bytes ''{"jsonrpc":"2.0","id":1,"result":{"tools":[]}}'' @ [0x0A]) =
     framed [ex_reply_line]\<close>
  by (simp add: ex_reply_line_def framed_def bytes_simps js_simps nl_def)

lemma ex_reply_line_facts:
  "nl \<notin> set ex_reply_line" "trim ex_reply_line \<noteq> []"
  "JSON_parse ex_platform ex_reply_line = Some ex_reply"
  by (simp_all add: ex_reply_line_def ex_platform_def js_simps nl_def trim_def is_space_def)

lemma ex_reply_arrives:
  assumes "r < length (heap s)" and "messageBuffer (heap s ! r) = []"
  shows \<open>step ex_platform s
           (StdoutData r (bytes ''{"jsonrpc":"2.0","id":1,"result":{"tools":[]}}'' @ [0x0A])) =
         handleStdioMessage ex_platform r ex_reply s\<close>
proof -
  have "foldl (\<lambda>s c. handleStdioData ex_platform r c s) s
          [bytes ''{\"jsonrpc\":\"2.0\",\"id\":1,\"result\":{\"tools\":[]}}'' @ [0x0A]] =
        foldl (handleLine ex_platform r) s [ex_reply_line]"
    by (rule handleStdioData_chunks [OF assms])
      (simp_all add: ex_reply_bytes ex_reply_line_facts)
  with assms(1) show ?thesis
    by (simp add: handleLine_def ex_reply_line_facts)
qed

text \<open>
  C1. The claim fails on the code when an id is used again within 30 seconds. The timer
  of a request is never cleared, and its callback tests whether the id is in the
  table, not whether the entry is its own. Request 0 (id 1) is answered by the backend.
  Request 1 (the same id) is posted; the timer of request 0 fires, finds the entry of
  request 1, deletes it and resolves the promise of request 0, which is settled
  already. The reply to request 1 finds no entry, and the timer of request 1 finds
  none either. At the end request 0 has its one answer and request 1 has none, and
  nothing is left that could answer it: no entry, no timer.
\<close>

theorem reused_id_never_answered:
  "map pendingRequests (heap (run ex_platform init (take 3 ex_reuse))) = [[(IdNum 1, 1)]]
   \<and> map pendingRequests (heap (run ex_platform init (take 4 ex_reuse))) = [[]]
   \<and> answers (run ex_platform init ex_reuse) 0 = [(200, Envelope ex_reply)]
   \<and> answers (run ex_platform init ex_reuse) 1 = []
   \<and> timers (run ex_platform init ex_reuse) = []
   \<and> map pendingRequests (heap (run ex_platform init ex_reuse)) = [[]]"
proof -
  define s1 where "s1 = step ex_platform init (Post (ex_request ex_call) 0 True)"
  define s2 where "s2 = handleStdioMessage ex_platform 0 ex_reply s1"
  define s3 where "s3 = step ex_platform s2 (Post (ex_request ex_call) 1 True)"
  define s4 where "s4 = step ex_platform s3 (Timeout 0)"
  define s5 where "s5 = handleStdioMessage ex_platform 0 ex_reply s4"
  define s6 where "s6 = step ex_platform s5 (Timeout 1)"
  have e1: "s1 = ex_waiting"
    by (simp add: s1_def ex_waiting_def run_def)
  have e2: "s2 = ex_waiting\<lparr>heap := [(heap ex_waiting ! 0)\<lparr>pendingRequests := []\<rparr>],
                           settled := [0], responses := [(0, 200, Envelope ex_reply)]\<rparr>"
    by (simp add: s2_def e1 ex_waiting_eval handleStdioMessage_def resolve_def modify_def
          ex_reply_def)
  have e3: "s3 = s2\<lparr>heap := [(heap ex_waiting ! 0)\<lparr>pendingRequests := [(IdNum 1, 1)]\<rparr>],
                   stdin := stdin s2 @ [(0, JSON_stringify ex_platform ex_call @ [nl])],
                   timers := timers s2 @
                     [\<lparr>t_session = 0, t_id = IdNum 1, t_resolve = 1, t_delay = 30000\<rparr>]\<rparr>"
    by (simp add: s3_def e2 ex_waiting_eval ex_request_def ex_call_def op_defs js_eq_iff)
  have e4: "s4 = s3\<lparr>heap := [(heap ex_waiting ! 0)\<lparr>pendingRequests := []\<rparr>],
                   timers := [\<lparr>t_session = 0, t_id = IdNum 1, t_resolve = 1, t_delay = 30000\<rparr>]\<rparr>"
    by (simp add: s4_def e3 e2 ex_waiting_eval onTimeout_def resolve_def modify_def)
  have e5: "s5 = s4"
    by (simp add: s5_def e4 e3 e2 ex_waiting_eval handleStdioMessage_def ex_reply_def)
  have e6: "s6 = s4\<lparr>timers := []\<rparr>"
    by (simp add: s6_def e5 e4 e3 e2 ex_waiting_eval onTimeout_def)
  have a2: "step ex_platform s1
              (StdoutData 0 (bytes ''{\"jsonrpc\":\"2.0\",\"id\":1,\"result\":{\"tools\":[]}}'' @ [0x0A])) = s2"
    unfolding s2_def by (rule ex_reply_arrives) (simp_all add: e1 ex_waiting_eval)
  have a5: "step ex_platform s4
              (StdoutData 0 (bytes ''{\"jsonrpc\":\"2.0\",\"id\":1,\"result\":{\"tools\":[]}}'' @ [0x0A])) = s5"
    unfolding s5_def by (rule ex_reply_arrives) (simp_all add: e4 e3 e2 ex_waiting_eval)
  note steps = s1_def [symmetric] a2 s3_def [symmetric] s4_def [symmetric] a5 s6_def [symmetric]
  have p3: "take 3 ex_reuse =
              [Post (ex_request ex_call) 0 True,
               StdoutData 0 (bytes ''{\"jsonrpc\":\"2.0\",\"id\":1,\"result\":{\"tools\":[]}}'' @ [0x0A]),
               Post (ex_request ex_call) 1 True]"
    and p4: "take 4 ex_reuse =
              [Post (ex_request ex_call) 0 True,
               StdoutData 0 (bytes ''{\"jsonrpc\":\"2.0\",\"id\":1,\"result\":{\"tools\":[]}}'' @ [0x0A]),
               Post (ex_request ex_call) 1 True, Timeout 0]"
    by (simp_all add: ex_reuse_def)
  have t3: "run ex_platform init (take 3 ex_reuse) = s3"
    unfolding p3 by (simp only: run_def foldl.simps steps)
  have t4: "run ex_platform init (take 4 ex_reuse) = s4"
    unfolding p4 by (simp only: run_def foldl.simps steps)
  have t6: "run ex_platform init ex_reuse = s6"
    unfolding ex_reuse_def by (simp only: run_def foldl.simps steps)
  show ?thesis
    unfolding t3 t4 t6 e6
    by (simp add: e4 e3 e2 ex_waiting_eval answers_def)
qed

section \<open>Exactly one answer, when the id is not used again\<close>

lemma resolver_registered_before_write:
  assumes "r < length (heap s)"
  shows "submit P r i m res s =
           setTimeout (request_timer r i res) (sendToStdio P r m (registerPending r i res s))"
    and "map_of (pendingRequests (heap (registerPending r i res s) ! r)) i = Some res"
    and "stdin (registerPending r i res s) = stdin s"
    and "stdin (submit P r i m res s) = stdin s @ [(process (heap s ! r), JSON_stringify P m @ [nl])]"
  using assms
  by (simp_all add: submit_def request_timer_def registerPending_def sendToStdio_def
        setTimeout_def modify_simps update_conv')

lemma answers_modify: "answers (modify k f s) res = answers s res"
  by (simp add: answers_def modify_def)

lemma answers_respond:
  "answers (respond res' status b s) res =
     (if res' = res then answers s res @ [(status, b)] else answers s res)"
  by (simp add: answers_def respond_def)

lemma answers_resolve:
  "answers (resolve cb m s) res =
     (if cb \<notin> set (settled s) \<and> cb = res then answers s res @ [(200, Envelope m)]
      else answers s res)"
  by (auto simp add: answers_def resolve_def)

lemma answers_cong: "responses s' = responses s \<Longrightarrow> answers s' res = answers s res"
  by (simp add: answers_def)

lemma settled_resolve: "set (settled (resolve cb m s)) = insert cb (set (settled s))"
  by (auto simp add: resolve_def)

lemma keeps_refl: "keeps res s s"
  by (simp add: keeps_def)

lemma keeps_trans: "keeps res s s' \<Longrightarrow> keeps res s' s'' \<Longrightarrow> keeps res s s''"
  by (auto simp add: keeps_def)

lemma keeps_same:
  "settled s' = settled s \<Longrightarrow> responses s' = responses s \<Longrightarrow> keeps res s s'"
  by (simp add: keeps_def answers_def)

lemma keeps_resolve: "keeps res s (resolve cb m s)"
  by (auto simp add: keeps_def answers_resolve settled_resolve)

lemma keeps_respond: "res' \<noteq> res \<Longrightarrow> keeps res s (respond res' status b s)"
  by (simp add: keeps_def answers_respond) (simp add: respond_def)

lemma keeps_answered: "keeps res s s' \<Longrightarrow> answered s i res \<Longrightarrow> answered s' i res"
  by (auto simp add: keeps_def answered_def)

lemma keeps_handleStdioMessage: "keeps res s (handleStdioMessage P k m s)"
proof -
  have a: "keeps res s (modify k f s)" for f
    by (simp add: keeps_same modify_simps)
  have b: "keeps res x (x\<lparr>sseWrites := w\<rparr>)" for x w
    by (simp add: keeps_same)
  have c: "keeps res s (resolve cb m (modify k f s))" for cb f
    by (rule keeps_trans [OF a keeps_resolve])
  show ?thesis
    unfolding handleStdioMessage_def Let_def
    by (auto split: option.splits intro: keeps_refl b c keeps_trans [OF c b])
qed

lemma keeps_handleLine: "keeps res s (handleLine P k s l)"
  by (simp add: handleLine_def keeps_refl keeps_handleStdioMessage split: option.splits)

lemma keeps_foldl_handleLine: "keeps res s (foldl (handleLine P k) s ls)"
proof (induction ls arbitrary: s)
  case Nil
  show ?case by (simp add: keeps_refl)
next
  case (Cons l ls)
  show ?case
    using keeps_trans [OF keeps_handleLine Cons.IH] by simp
qed

lemma keeps_handleStdioData: "keeps res s (handleStdioData P k d s)"
  unfolding handleStdioData_def Let_def
  by (rule keeps_trans [OF _ keeps_foldl_handleLine]) (simp add: keeps_same modify_simps)

lemma keeps_onTimeout: "keeps res s (onTimeout t s)"
proof -
  have a: "keeps res s (modify k f s)" for k f
    by (simp add: keeps_same modify_simps)
  show ?thesis
    unfolding onTimeout_def
    by (auto split: option.splits intro: keeps_refl keeps_trans [OF a keeps_resolve])
qed

lemma submit_simps:
  "settled (submit P r i m res s) = settled s"
  "responses (submit P r i m res s) = responses s"
  "sessions (submit P r i m res s) = sessions s"
  "timers (submit P r i m res s) = timers s @ [request_timer r i res]"
  "heap (submit P r i m res s) =
     (heap s)[r := (heap s ! r)\<lparr>pendingRequests := AList.update i res (pendingRequests (heap s ! r))\<rparr>]"
  by (simp_all add: submit_def request_timer_def registerPending_def sendToStdio_def
        setTimeout_def modify_simps)

lemma keeps_dispatch: "res' \<noteq> res \<Longrightarrow> keeps res s (dispatch P r m res' s)"
proof -
  assume n: "res' \<noteq> res"
  have a: "keeps res s (sendToStdio P r m s)"
    by (simp add: keeps_same sendToStdio_def)
  have b: "keeps res s (submit P r j m res' s)" for j
    by (simp add: keeps_same submit_simps)
  show ?thesis
    unfolding dispatch_def
    by (auto split: option.splits intro: b keeps_respond [OF n] keeps_trans [OF a keeps_respond [OF n]])
qed

lemma keeps_handleMessage: "res' \<noteq> res \<Longrightarrow> keeps res s (handleMessage P req res' spawn_ok s)"
proof -
  assume n: "res' \<noteq> res"
  have a: "keeps res s (s\<lparr>heap := h, sessions := st\<rparr>)" for h st
    by (simp add: keeps_same)
  show ?thesis
    unfolding handleMessage_def createSession_def Let_def
    by (auto split: option.splits
          intro: keeps_dispatch [OF n] keeps_respond [OF n] keeps_trans [OF a keeps_dispatch [OF n]])
qed

lemma keeps_handleSSE: "res' \<noteq> res \<Longrightarrow> keeps res s (handleSSE req res' spawn_ok s)"
proof -
  assume n: "res' \<noteq> res"
  have a: "keeps res x (attach r res' x)" for x r
    by (simp add: keeps_same attach_def modify_def Let_def)
  have b: "keeps res s (s\<lparr>heap := h, sessions := st\<rparr>)" for h st
    by (simp add: keeps_same)
  show ?thesis
    unfolding handleSSE_def createSession_def Let_def
    by (auto split: option.splits intro: a keeps_respond [OF n] keeps_trans [OF b a])
qed

lemma keeps_step: "quiet i res e \<Longrightarrow> keeps res s (step P s e)"
proof (cases e)
  case (Post req res' ok)
  then show "quiet i res e \<Longrightarrow> ?thesis" by (simp add: keeps_handleMessage)
next
  case (Sse req res' ok)
  then show "quiet i res e \<Longrightarrow> ?thesis" by (simp add: keeps_handleSSE)
next
  case (StdoutData k d)
  then show ?thesis by (simp add: keeps_handleStdioData keeps_refl)
next
  case (ProcError k)
  then show ?thesis by (simp add: onError_def keeps_same modify_simps)
next
  case (ProcExit k)
  then show ?thesis by (simp add: onExit_def keeps_same modify_simps Let_def)
next
  case (Timeout res')
  have "keeps res s (s\<lparr>timers := ts\<rparr>)" for ts
    by (simp add: keeps_same)
  from keeps_trans [OF this keeps_onTimeout] Timeout show ?thesis
    by (simp add: keeps_refl split: option.splits)
next
  case (ReqClose res')
  then show ?thesis
    by (simp add: onClose_def keeps_same modify_simps split: option.splits)
next
  case Shutdown
  then show ?thesis by (simp add: close_def keeps_same)
qed

lemma answered_run:
  "answered s i res \<Longrightarrow> list_all (quiet i res) es \<Longrightarrow> answered (run P s es) i res"
  unfolding run_def
  by (induction es arbitrary: s) (auto intro: keeps_answered [OF keeps_step])

lemma waiting_iff:
  "waiting s r i res \<longleftrightarrow>
     r < length (heap s)
     \<and> map_of (pendingRequests (heap s ! r)) i = Some res
     \<and> res \<notin> set (settled s)
     \<and> answers s res = []
     \<and> find (\<lambda>t. t_resolve t = res) (timers s) = Some (request_timer r i res)
     \<and> (\<forall>t \<in> set (timers s). t_session t = r \<and> t_id t = i \<longrightarrow> t_resolve t = res)
     \<and> (\<forall>k < length (heap s). \<forall>j. (j, res) \<in> set (pendingRequests (heap s ! k)) \<longrightarrow>
           k = r \<and> j = i)"
proof -
  have a: "list_all (\<lambda>t. t_resolve t = res \<or> \<not> (t_session t = r \<and> t_id t = i)) ts \<longleftrightarrow>
           (\<forall>t \<in> set ts. t_session t = r \<and> t_id t = i \<longrightarrow> t_resolve t = res)" for ts
    unfolding list_all_iff by blast
  have b: "list_all (\<lambda>(j, c). c = res \<longrightarrow> k = r \<and> j = i) al \<longleftrightarrow>
           (\<forall>j. (j, res) \<in> set al \<longrightarrow> k = r \<and> j = i)" for k al
    unfolding list_all_iff by auto
  have c: "list_all p [0..<n] \<longleftrightarrow> (\<forall>k<n. p k)" for p and n :: nat
    unfolding list_all_iff by auto
  show ?thesis
    unfolding waiting_def a b c ..
qed

lemma waiting_same:
  assumes "waiting s r i res"
    and "map pendingRequests (heap s') = map pendingRequests (heap s)"
    and "settled s' = settled s" and "responses s' = responses s" and "timers s' = timers s"
  shows "waiting s' r i res"
proof -
  have len: "length (heap s') = length (heap s)"
    using assms(2) by (rule map_eq_imp_length_eq)
  have nth: "pendingRequests (heap s' ! k) = pendingRequests (heap s ! k)" if "k < length (heap s)" for k
    using that len nth_map [of k "heap s'" pendingRequests] nth_map [of k "heap s" pendingRequests]
      assms(2) by simp
  show ?thesis
    using assms(1) len nth assms(3,5) answers_cong [OF assms(4), of res]
    unfolding waiting_iff by auto
qed

lemma map_pending_update:
  "pendingRequests (f (hs ! k)) = pendingRequests (hs ! k) \<Longrightarrow>
   map pendingRequests (hs[k := f (hs ! k)]) = map pendingRequests hs"
  by (cases "k < length hs") (simp_all add: map_update list_update_same_conv list_update_beyond)

lemma map_pending_modify:
  "(\<And>x. pendingRequests (f x) = pendingRequests x) \<Longrightarrow>
   map pendingRequests (heap (modify k f s)) = map pendingRequests (heap s)"
  by (simp add: modify_simps map_pending_update)

lemma set_delete_subset: "set (AList.delete j al) \<subseteq> set al"
  by (induction al) auto

lemma set_update_subset: "set (AList.update j v al) \<subseteq> insert (j, v) (set al)"
  by (induction al) auto

lemma waiting_delete_other:
  assumes "waiting s r i res" and "\<not> (k = r \<and> j = i)"
  shows "waiting (modify k (\<lambda>x. x\<lparr>pendingRequests := AList.delete j (pendingRequests x)\<rparr>) s) r i res"
proof -
  let ?s = "modify k (\<lambda>x. x\<lparr>pendingRequests := AList.delete j (pendingRequests x)\<rparr>) s"
  have p: "pendingRequests (heap ?s ! n) =
             (if n = k then AList.delete j (pendingRequests (heap s ! n))
              else pendingRequests (heap s ! n))" if "n < length (heap s)" for n
    using that by (simp add: modify_simps nth_list_update)
  have sub: "set (pendingRequests (heap ?s ! n)) \<subseteq> set (pendingRequests (heap s ! n))"
    if "n < length (heap s)" for n
    using that by (simp add: p set_delete_subset)
  have e: "map_of (pendingRequests (heap ?s ! r)) i = Some res"
    using assms by (auto simp add: waiting_iff p delete_conv')
  show ?thesis
    using assms(1) e sub
    unfolding waiting_iff [of ?s] waiting_iff [of s]
    by (simp add: modify_simps answers_modify) blast
qed

lemma waiting_resolve_other:
  assumes "waiting s r i res" and "cb \<noteq> res"
  shows "waiting (resolve cb m s) r i res"
  using assms
  unfolding waiting_iff
  by (simp add: resolve_simps answers_resolve) (simp add: resolve_def)

lemma answered_resolve_own:
  assumes "res \<notin> set (settled s)" and "answers s res = []" and "id' m = Some i"
  shows "answered (resolve res m s) i res"
  using assms by (simp add: answered_def answers_resolve settled_resolve)

lemma waiting_sseWrites: "waiting (s\<lparr>sseWrites := w\<rparr>) r i res = waiting s r i res"
  by (rule iffI; erule waiting_same; simp)

lemma answered_sseWrites: "answered (s\<lparr>sseWrites := w\<rparr>) i res = answered s i res"
  by (simp add: answered_def answers_def)

lemma waiting_handleStdioMessage:
  assumes "waiting s r i res" and "k < length (heap s)"
  shows "waiting (handleStdioMessage P k m s) r i res \<or> answered (handleStdioMessage P k m s) i res"
proof (cases "id' m")
  case None
  with assms(1) show ?thesis
    by (simp add: handleStdioMessage_def Let_def waiting_sseWrites split: option.splits)
next
  case (Some j)
  show ?thesis
  proof (cases "map_of (pendingRequests (heap s ! k)) j")
    case None
    with Some assms(1) show ?thesis
      by (simp add: handleStdioMessage_def Let_def waiting_sseWrites split: option.splits)
  next
    case (Some cb)
    let ?d = "modify k (\<lambda>x. x\<lparr>pendingRequests := AList.delete j (pendingRequests x)\<rparr>) s"
    have mem: "(j, cb) \<in> set (pendingRequests (heap s ! k))"
      using Some by (rule map_of_SomeD)
    show ?thesis
    proof (cases "cb = res")
      case True
      with mem assms have kj: "k = r" "j = i"
        unfolding waiting_iff by blast+
      have "answered (resolve res m ?d) i res"
        using assms(1) \<open>id' m = Some j\<close> kj
        by (intro answered_resolve_own) (simp_all add: waiting_iff modify_simps answers_modify)
      with True Some \<open>id' m = Some j\<close> show ?thesis
        by (simp add: handleStdioMessage_def Let_def answered_sseWrites split: option.splits)
    next
      case False
      have "\<not> (k = r \<and> j = i)"
        using False Some assms(1) unfolding waiting_iff by auto
      from waiting_resolve_other [OF waiting_delete_other [OF assms(1) this] False]
      have "waiting (resolve cb m ?d) r i res" .
      with Some \<open>id' m = Some j\<close> show ?thesis
        by (simp add: handleStdioMessage_def Let_def waiting_sseWrites split: option.splits)
    qed
  qed
qed

lemma waiting_length: "waiting s r i res \<Longrightarrow> r < length (heap s)"
  by (simp add: waiting_iff)

lemma waiting_foldl_handleLine:
  assumes "waiting s r i res \<or> answered s i res" and "k < length (heap s)"
  shows "waiting (foldl (handleLine P k) s ls) r i res \<or> answered (foldl (handleLine P k) s ls) i res"
  using assms
proof (induction ls arbitrary: s)
  case Nil
  then show ?case by simp
next
  case (Cons l ls)
  have "waiting (handleLine P k s l) r i res \<or> answered (handleLine P k s l) i res"
  proof (cases "waiting s r i res")
    case True
    with Cons.prems(2) waiting_handleStdioMessage [OF True, of k P] show ?thesis
      by (auto simp add: handleLine_def split: option.splits)
  next
    case False
    with Cons.prems(1) have "answered s i res" by simp
    then show ?thesis
      using keeps_answered [OF keeps_handleLine] by blast
  qed
  moreover have "k < length (heap (handleLine P k s l))"
    using Cons.prems(2) by (simp add: handleLine_frame)
  ultimately show ?case
    using Cons.IH by simp
qed

lemma waiting_handleStdioData:
  assumes "waiting s r i res" and "k < length (heap s)"
  shows "waiting (handleStdioData P k d s) r i res \<or> answered (handleStdioData P k d s) i res"
proof -
  have "waiting (modify k (\<lambda>x. x\<lparr>messageBuffer := b\<rparr>) s) r i res" for b
    by (rule waiting_same [OF assms(1)]) (simp_all add: map_pending_update modify_simps)
  then show ?thesis
    unfolding handleStdioData_def Let_def
    using assms(2) by (intro waiting_foldl_handleLine) (simp_all add: modify_simps)
qed

lemma find_remove1_other: "\<not> p x \<Longrightarrow> find p (remove1 x xs) = find p xs"
  by (induction xs) auto

lemma find_append_found: "find p xs = Some y \<Longrightarrow> find p (xs @ zs) = Some y"
  by (induction xs) (auto split: if_splits)

lemma find_append_fresh: "\<forall>x \<in> set xs. \<not> p x \<Longrightarrow> p y \<Longrightarrow> find p (xs @ [y]) = Some y"
  by (induction xs) auto

lemma waiting_onTimeout_other:
  assumes "waiting s r i res" and "t \<in> set (timers s)" and "t_resolve t \<noteq> res"
  shows "waiting (onTimeout t (s\<lparr>timers := remove1 t (timers s)\<rparr>)) r i res"
proof -
  let ?s = "s\<lparr>timers := remove1 t (timers s)\<rparr>"
  have w: "waiting ?s r i res"
    using assms(1,3) set_remove1_subset [of t "timers s"]
    unfolding waiting_iff
    by (auto simp add: find_remove1_other answers_def)
  have n: "\<not> (t_session t = r \<and> t_id t = i)"
    using assms unfolding waiting_iff by blast
  show ?thesis
    unfolding onTimeout_def
    using w waiting_resolve_other [OF waiting_delete_other [OF w n] assms(3)]
    by (simp split: option.splits)
qed

lemma waiting_onTimeout_own:
  assumes "waiting s r i res"
  shows "answered (onTimeout (request_timer r i res) (s\<lparr>timers := ts\<rparr>)) i res"
proof -
  have "answered (resolve res (timeout_envelope i) s') i res"
    if "settled s' = settled s" "responses s' = responses s" for s'
    using assms that
    by (intro answered_resolve_own)
      (simp_all add: waiting_iff answers_def timeout_envelope_def error_envelope_def)
  then show ?thesis
    using assms
    by (simp add: onTimeout_def request_timer_def waiting_iff modify_simps)
qed

lemma waiting_submit_other:
  assumes "waiting s r i res" and "res' \<noteq> res" and "j \<noteq> i"
  shows "waiting (submit P r' j m res' s) r i res"
proof -
  let ?s = "submit P r' j m res' s"
  have p: "pendingRequests (heap ?s ! n) =
             (if n = r' then AList.update j res' (pendingRequests (heap s ! n))
              else pendingRequests (heap s ! n))" if "n < length (heap s)" for n
    using that by (simp add: submit_simps nth_list_update)
  have sub: "set (pendingRequests (heap ?s ! n)) \<subseteq> insert (j, res') (set (pendingRequests (heap s ! n)))"
    if "n < length (heap s)" for n
    using that set_update_subset [of j res'] by (auto simp add: p)
  have e: "map_of (pendingRequests (heap ?s ! r)) i = Some res"
    using assms by (auto simp add: waiting_iff p update_conv')
  have f: "find (\<lambda>t. t_resolve t = res) (timers ?s) = Some (request_timer r i res)"
    using assms(1) by (simp add: waiting_iff submit_simps find_append_found)
  have u: "(ja, res) \<in> set (pendingRequests (heap ?s ! n)) \<Longrightarrow> n = r \<and> ja = i"
    if "n < length (heap s)" for n ja
    using sub [OF that] assms(1,2) that unfolding waiting_iff by auto
  show ?thesis
    unfolding waiting_iff [of ?s]
    using assms e f u
    by (auto simp add: waiting_iff [of s] submit_simps answers_def request_timer_def)
qed

lemma waiting_respond_other:
  "waiting s r i res \<Longrightarrow> res' \<noteq> res \<Longrightarrow> waiting (respond res' status b s) r i res"
  unfolding waiting_iff
  by (simp add: answers_respond) (simp add: respond_def)

lemma waiting_dispatch:
  assumes "waiting s r i res" and "res' \<noteq> res" and "id' m \<noteq> Some i"
  shows "waiting (dispatch P r' m res' s) r i res"
proof -
  have "waiting (sendToStdio P r' m s) r i res"
    by (rule waiting_same [OF assms(1)]) (simp_all add: sendToStdio_def)
  with assms show ?thesis
    by (auto simp add: dispatch_def waiting_respond_other waiting_submit_other split: option.splits)
qed

lemma waiting_new_session:
  assumes "waiting s r i res" and "pendingRequests x = []"
  shows "waiting (s\<lparr>heap := heap s @ [x], sessions := st\<rparr>) r i res"
  using assms
  unfolding waiting_iff
  by (auto simp add: nth_append answers_def less_Suc_eq)

lemma waiting_handleMessage:
  assumes "waiting s r i res" and "res' \<noteq> res" and "id' (body req) \<noteq> Some i"
  shows "waiting (handleMessage P req res' spawn_ok s) r i res"
  using assms
  by (auto simp add: handleMessage_def createSession_def Let_def waiting_dispatch
        waiting_respond_other waiting_new_session split: option.splits)

lemma waiting_attach:
  assumes "waiting s r i res"
  shows "waiting (attach k res' s) r i res"
proof (rule waiting_same [OF assms])
  show "map pendingRequests (heap (attach k res' s)) = map pendingRequests (heap s)"
    by (simp add: attach_def Let_def modify_def map_pending_update)
qed (simp_all add: attach_def Let_def modify_def)

lemma waiting_handleSSE:
  assumes "waiting s r i res" and "res' \<noteq> res"
  shows "waiting (handleSSE req res' spawn_ok s) r i res"
  using assms
  by (auto simp add: handleSSE_def createSession_def Let_def waiting_attach
        waiting_respond_other waiting_new_session split: option.splits)

lemma waiting_step:
  assumes "waiting s r i res" and "quiet i res e"
  shows "waiting (step P s e) r i res \<or> answered (step P s e) i res"
proof (cases e)
  case (Post req res' ok)
  with assms show ?thesis by (simp add: waiting_handleMessage)
next
  case (Sse req res' ok)
  with assms show ?thesis by (simp add: waiting_handleSSE)
next
  case (StdoutData k d)
  with assms(1) waiting_handleStdioData [OF assms(1), of k P d] show ?thesis by simp
next
  case (ProcError k)
  have "waiting (onError k s) r i res"
    by (rule waiting_same [OF assms(1)]) (simp_all add: onError_def map_pending_update modify_simps)
  with ProcError assms(1) show ?thesis by simp
next
  case (ProcExit k)
  have "waiting (onExit k s) r i res"
    by (rule waiting_same [OF assms(1)])
      (simp_all add: onExit_def Let_def map_pending_update modify_simps)
  with ProcExit assms(1) show ?thesis by simp
next
  case (Timeout res')
  show ?thesis
  proof (cases "find (\<lambda>t. t_resolve t = res') (timers s)")
    case None
    with Timeout assms(1) show ?thesis by simp
  next
    case (Some t)
    then have t: "t \<in> set (timers s)" "t_resolve t = res'"
      by (auto simp add: find_Some_iff)
    show ?thesis
    proof (cases "res' = res")
      case True
      with Some assms(1) have "t = request_timer r i res"
        by (simp add: waiting_iff)
      with Timeout Some waiting_onTimeout_own [OF assms(1)] show ?thesis by simp
    next
      case False
      with Timeout Some t waiting_onTimeout_other [OF assms(1) t(1)] show ?thesis by simp
    qed
  qed
next
  case (ReqClose res')
  have "waiting (onClose k res' s) r i res" for k
    by (rule waiting_same [OF assms(1)])
      (simp_all add: onClose_def map_pending_update modify_simps)
  with ReqClose assms(1) show ?thesis by (simp split: option.splits)
next
  case Shutdown
  have "waiting (close s) r i res"
    by (rule waiting_same [OF assms(1)]) (simp_all add: close_def)
  with Shutdown show ?thesis by simp
qed

lemma waiting_timer_fires:
  assumes "waiting s r i res"
  shows "answered (step P s (Timeout res)) i res"
  using assms waiting_onTimeout_own [OF assms]
  by (simp add: waiting_iff)

lemma waiting_run:
  assumes "waiting s r i res" and "list_all (quiet i res) es" and "Timeout res \<in> set es"
  shows "answered (run P s es) i res"
  using assms
proof (induction es arbitrary: s)
  case Nil
  then show ?case by simp
next
  case (Cons e es)
  have q: "quiet i res e" "list_all (quiet i res) es"
    using Cons.prems(2) by simp_all
  have rest: "answered (step P s e) i res \<Longrightarrow> ?case"
    using answered_run [OF _ q(2), of "step P s e" P] by (simp add: run_def)
  show ?case
  proof (cases "e = Timeout res")
    case True
    with waiting_timer_fires [OF Cons.prems(1)] rest show ?thesis by simp
  next
    case False
    with Cons.prems(3) have "Timeout res \<in> set es" by simp
    with waiting_step [OF Cons.prems(1) q(1), of P] Cons.IH [OF _ q(2)] rest show ?thesis
      by (auto simp add: run_def)
  qed
qed

lemma fresh_submit:
  assumes "fresh s r i res" and "r < length (heap s)"
  shows "waiting (submit P r i m res s) r i res"
proof -
  let ?s = "submit P r i m res s"
  have fr: "res \<notin> set (settled s)" "answers s res = []"
    "\<forall>t \<in> set (timers s). t_resolve t \<noteq> res \<and> \<not> (t_session t = r \<and> t_id t = i)"
    "\<forall>x \<in> set (heap s). \<forall>j. (j, res) \<notin> set (pendingRequests x)"
    using assms(1) unfolding fresh_def list_all_iff by auto
  have f: "find (\<lambda>t. t_resolve t = res) (timers ?s) = Some (request_timer r i res)"
    using fr(3) by (simp add: submit_simps find_append_fresh request_timer_def)
  have u: "n = r \<and> j = i" if "n < length (heap s)" "(j, res) \<in> set (pendingRequests (heap ?s ! n))" for n j
  proof -
    have "(j, res) \<notin> set (pendingRequests (heap s ! n))"
      using fr(4) that(1) by simp
    moreover have "pendingRequests (heap ?s ! n) =
        (if n = r then AList.update i res (pendingRequests (heap s ! n))
         else pendingRequests (heap s ! n))"
      using that(1) by (simp add: submit_simps)
    ultimately show ?thesis
      using that(2) set_update_subset [of i res "pendingRequests (heap s ! n)"]
      by (cases "n = r") auto
  qed
  show ?thesis
    unfolding waiting_iff
    using assms(2) fr f u
    by (auto simp add: submit_simps answers_def update_conv' request_timer_def)
qed

lemma fresh_new_session:
  "fresh s r i res \<Longrightarrow> pendingRequests x = [] \<Longrightarrow>
   fresh (s\<lparr>heap := heap s @ [x], sessions := st\<rparr>) r i res"
  by (simp add: fresh_def answers_def)

text \<open>
  What holds of the claim C1 on the code. Take a request with an id that is not
  intercepted, posted when \<open>handleMessage\<close> can hold a Session, on a response new to
  the gateway, while no timer of an earlier request with the same id on that Session is
  still armed. Let any events follow in which the id is not posted again and the
  response is not reused, and among which the timer of the request fires. Then the
  response has exactly one answer, status 200 with an envelope that carries the id of
  the request: the backend's reply if it came before the timer, the timeout envelope
  otherwise.
\<close>

lemma answered_once_without_reuse:
  assumes "id' (body req) = Some i"
    and "method' (body req) \<noteq> Some (js ''logging/setLevel'')"
    and "method' (body req) \<noteq> Some (js ''resources/list'')"
    and "available s (message_sessionId req) spawn_ok"
    and "usable s (message_sessionId req) \<noteq> None \<longrightarrow>
         target s (message_sessionId req) < length (heap s)"
    and "fresh s (target s (message_sessionId req)) i res"
    and "list_all (quiet i res) es"
    and "Timeout res \<in> set es"
  shows "answered (run P (handleMessage P req res spawn_ok s) es) i res"
proof -
  let ?sid = "message_sessionId req"
  have "waiting (handleMessage P req res spawn_ok s) (target s ?sid) i res"
  proof (cases "usable s ?sid")
    case (Some r')
    with assms(5) have len: "r' < length (heap s)"
      by (simp add: target_def)
    have "handleMessage P req res spawn_ok s = submit P r' i (body req) res s"
      using Some assms(1,2,3) by (simp add: handleMessage_def dispatch_def)
    moreover have "fresh s r' i res"
      using assms(6) Some by (simp add: target_def)
    ultimately show ?thesis
      using Some fresh_submit [OF _ len] by (simp add: target_def)
  next
    case None
    with assms(4) have ok: spawn_ok
      by (simp add: available_def)
    let ?x = "\<lparr>session_id = ?sid, process = length (heap s), messageBuffer = [],
               sseResponse = None, pendingRequests = [], connected = True\<rparr>"
    let ?s1 = "s\<lparr>heap := heap s @ [?x],
                 sessions := AList.update ?sid (length (heap s)) (sessions s)\<rparr>"
    have "handleMessage P req res spawn_ok s = submit P (length (heap s)) i (body req) res ?s1"
      using None ok assms(1,2,3)
      by (simp add: handleMessage_def dispatch_def createSession_def Let_def)
    moreover have "fresh ?s1 (length (heap s)) i res"
      using assms(6) None by (simp add: fresh_new_session target_def)
    moreover have "length (heap s) < length (heap ?s1)"
      by simp
    ultimately show ?thesis
      using None fresh_submit [of ?s1 "length (heap s)" i res P "body req"]
      by (simp add: target_def)
  qed
  from waiting_run [OF this assms(7,8)] show ?thesis .
qed

text \<open>
  The lemma at work: the first request on the empty gateway, followed by its timer
  alone, is answered with the timeout envelope; followed by the backend's reply and
  then its timer, it is answered with the reply only.
\<close>

lemma answered_once_example:
  "answered (run ex_platform (handleMessage ex_platform (ex_request ex_call) 0 True init)
              [Timeout 0]) (IdNum 1) 0
   \<and> answers (run ex_platform (handleMessage ex_platform (ex_request ex_call) 0 True init)
              [Timeout 0]) 0 = [(200, Envelope (timeout_envelope (IdNum 1)))]
   \<and> answers (run ex_platform (handleMessage ex_platform (ex_request ex_call) 0 True init)
              [StdoutData 0 (bytes ''{\"jsonrpc\":\"2.0\",\"id\":1,\"result\":{\"tools\":[]}}'' @ [0x0A]),
               Timeout 0]) 0 = [(200, Envelope ex_reply)]"
proof -
  have a: "id' (body (ex_request ex_call)) = Some (IdNum 1)"
    and b: "method' (body (ex_request ex_call)) \<noteq> Some (js ''logging/setLevel'')"
    and c: "method' (body (ex_request ex_call)) \<noteq> Some (js ''resources/list'')"
    by (simp_all add: ex_request_def ex_call_def js_eq_iff)
  have d: "available init (message_sessionId (ex_request ex_call)) True"
    by (simp add: available_def)
  have e: "usable init (message_sessionId (ex_request ex_call)) \<noteq> None \<longrightarrow>
           target init (message_sessionId (ex_request ex_call)) < length (heap init)"
    by (simp add: usable_def init_def)
  have f: "fresh init (target init (message_sessionId (ex_request ex_call))) (IdNum 1) 0"
    by (simp add: fresh_def init_def answers_def)
  have g: "list_all (quiet (IdNum 1) 0) [Timeout 0]" "Timeout 0 \<in> set [Timeout 0]"
    by simp_all
  have w: "handleMessage ex_platform (ex_request ex_call) 0 True init = ex_waiting"
    by (simp add: ex_waiting_def run_def)
  have t: "answers (run ex_platform ex_waiting [Timeout 0]) 0 =
             [(200, Envelope (timeout_envelope (IdNum 1)))]"
    by (simp add: run_def ex_waiting_eval onTimeout_def resolve_def modify_def answers_def)
  have r: "step ex_platform ex_waiting
             (StdoutData 0 (bytes ''{\"jsonrpc\":\"2.0\",\"id\":1,\"result\":{\"tools\":[]}}'' @ [0x0A])) =
           handleStdioMessage ex_platform 0 ex_reply ex_waiting"
    by (rule ex_reply_arrives) (simp_all add: ex_waiting_eval)
  have u: "answers (run ex_platform ex_waiting
             [StdoutData 0 (bytes ''{\"jsonrpc\":\"2.0\",\"id\":1,\"result\":{\"tools\":[]}}'' @ [0x0A]),
              Timeout 0]) 0 = [(200, Envelope ex_reply)]"
    unfolding run_def foldl.simps r
    by (simp add: ex_waiting_eval handleStdioMessage_def onTimeout_def resolve_def modify_def
          answers_def ex_reply_def)
  from answered_once_without_reuse [OF a b c d e f g, where P = ex_platform] t u show ?thesis
    by (simp add: w)
qed

section \<open>Exit of the child and the requests still pending\<close>

text \<open>
  What holds of the claim C8 on the code. When the child of a Session exits, the handler
  marks that Session disconnected and deletes the entry of its id from the Session
  Store. It spawns nothing (the heap holds the same Sessions, so no new child), writes
  to no stdin, answers nothing, settles no promise, and leaves the pending table and
  the armed timers as they were. \<open>submit\<close> arms the timer of a request with 30000 ms;
  when that timer fires and finds the id in the table, it removes the entry and answers
  the waiting response with
  \<open>{jsonrpc: "2.0", id, error: {code: -32603, message: "Request timeout"}}\<close>.
  A request that is waiting in the Session (no timer of an earlier request with its
  id is armed) stays so across the exit: in every continuation in which its id is not
  posted again, its response is not reused and its timer fires, it ends with exactly
  one answer.
\<close>

lemma exit_handler_effects:
  assumes "r < length (heap s)"
  shows
    "connected (heap (onExit r s) ! r) = False
   \<and> map_of (sessions (onExit r s)) (session_id (heap s ! r)) = None
   \<and> length (heap (onExit r s)) = length (heap s)
   \<and> map process (heap (onExit r s)) = map process (heap s)
   \<and> map pendingRequests (heap (onExit r s)) = map pendingRequests (heap s)
   \<and> stdin (onExit r s) = stdin s
   \<and> responses (onExit r s) = responses s
   \<and> settled (onExit r s) = settled s
   \<and> timers (onExit r s) = timers s
   \<and> timers (submit P r i m res s) =
       timers s @ [\<lparr>t_session = r, t_id = i, t_resolve = res, t_delay = 30000\<rparr>]
   \<and> (\<forall>t \<in> set (timers s).
        t_session t = r
        \<and> map_of (pendingRequests (heap s ! r)) (t_id t) \<noteq> None
        \<and> t_resolve t \<notin> set (settled s) \<longrightarrow>
          responses (onTimeout t (onExit r s)) =
            responses s @
              [(t_resolve t, 200, Envelope
                 \<lparr>jsonrpc = js ''2.0'', id' = Some (t_id t), method' = None, params = None,
                  result = None,
                  error = Some (JObj [(js ''code'', JNum (- 32603)),
                                      (js ''message'', JStr (js ''Request timeout''))])\<rparr>)]
          \<and> map_of (pendingRequests (heap (onTimeout t (onExit r s)) ! r)) (t_id t) = None)
   \<and> (\<forall>j c. waiting s r j c \<longrightarrow> waiting (onExit r s) r j c)
   \<and> (\<forall>j c es. waiting s r j c \<and> list_all (quiet j c) es \<and> Timeout c \<in> set es \<longrightarrow>
          answered (run P (onExit r s) es) j c)"
proof -
  have h: "heap (onExit r s) = (heap s)[r := (heap s ! r)\<lparr>connected := False\<rparr>]"
    by (simp add: onExit_def modify_def Let_def)
  have f: "stdin (onExit r s) = stdin s" "responses (onExit r s) = responses s"
    "settled (onExit r s) = settled s" "timers (onExit r s) = timers s"
    "sessions (onExit r s) = AList.delete (session_id (heap s ! r)) (sessions s)"
    by (simp_all add: onExit_def modify_def Let_def)
  have m1: "map process (heap (onExit r s)) = map process (heap s)"
    using assms by (simp add: h map_update list_update_same_conv)
  have m2: "map pendingRequests (heap (onExit r s)) = map pendingRequests (heap s)"
    using assms by (simp add: h map_update list_update_same_conv)
  have p: "pendingRequests (heap (onExit r s) ! r) = pendingRequests (heap s ! r)"
    using assms by (simp add: h)
  have len: "r < length (heap (onExit r s))"
    using assms by (simp add: h)
  have t: "responses (onTimeout t (onExit r s)) =
            responses s @ [(t_resolve t, 200, Envelope (timeout_envelope (t_id t)))]
          \<and> map_of (pendingRequests (heap (onTimeout t (onExit r s)) ! r)) (t_id t) = None"
    if "t_session t = r" "map_of (pendingRequests (heap s ! r)) (t_id t) \<noteq> None"
       "t_resolve t \<notin> set (settled s)" for t
  proof -
    have "t_session t < length (heap (onExit r s))"
      and "map_of (pendingRequests (heap (onExit r s) ! t_session t)) (t_id t) \<noteq> None"
      and "t_resolve t \<notin> set (settled (onExit r s))"
      using that len p f by simp_all
    from onTimeout_fires [OF this] that f show ?thesis
      by simp
  qed
  have arm: "timers (submit P r i m res s) =
       timers s @ [\<lparr>t_session = r, t_id = i, t_resolve = res, t_delay = 30000\<rparr>]"
    by (simp add: submit_def setTimeout_def sendToStdio_def registerPending_def modify_simps)
  have w1: "waiting (onExit r s) r j c" if "waiting s r j c" for j c
    by (rule waiting_same [OF that]) (simp_all add: m2 f)
  have w2: "answered (run P (onExit r s) es) j c"
    if "waiting s r j c" "list_all (quiet j c) es" "Timeout c \<in> set es" for j c es
    using waiting_run [OF w1 [OF that(1)] that(2,3)] .
  have c1: "connected (heap (onExit r s) ! r) = False"
    and c2: "map_of (sessions (onExit r s)) (session_id (heap s ! r)) = None"
    and c3: "length (heap (onExit r s)) = length (heap s)"
    using assms by (simp_all add: h f delete_conv')
  have t': "\<forall>t \<in> set (timers s).
        t_session t = r
        \<and> map_of (pendingRequests (heap s ! r)) (t_id t) \<noteq> None
        \<and> t_resolve t \<notin> set (settled s) \<longrightarrow>
          responses (onTimeout t (onExit r s)) =
            responses s @
              [(t_resolve t, 200, Envelope
                 \<lparr>jsonrpc = js ''2.0'', id' = Some (t_id t), method' = None, params = None,
                  result = None,
                  error = Some (JObj [(js ''code'', JNum (- 32603)),
                                      (js ''message'', JStr (js ''Request timeout''))])\<rparr>)]
          \<and> map_of (pendingRequests (heap (onTimeout t (onExit r s)) ! r)) (t_id t) = None"
    using t by (simp add: timeout_envelope_def error_envelope_def)
  from c1 c2 c3 m1 m2 f(1-4) arm t' w1 w2 show ?thesis
    by blast
qed

lemma exit_handler_example:
  "0 < length (heap ex_listening)
   \<and> connected (heap (onExit 0 ex_listening) ! 0) = False
   \<and> map_of (sessions (onExit 0 ex_listening)) (js ''default-session'') = None
   \<and> responses (onExit 0 ex_listening) = []
   \<and> pendingRequests (heap (onExit 0 ex_listening) ! 0) = [(IdNum 1, 0)]
   \<and> responses (step ex_platform (onExit 0 ex_listening) (Timeout 0)) =
       [(0, 200, Envelope (timeout_envelope (IdNum 1)))]
   \<and> waiting ex_listening 0 (IdNum 1) 0
   \<and> answered (run ex_platform (onExit 0 ex_listening) [Timeout 0]) (IdNum 1) 0"
proof -
  have h: "0 < length (heap ex_listening)"
    by (simp add: ex_listening_eval)
  have e: "step ex_platform (onExit 0 ex_listening) (Timeout 0) =
             onTimeout \<lparr>t_session = 0, t_id = IdNum 1, t_resolve = 0, t_delay = 30000\<rparr>
               ((onExit 0 ex_listening)\<lparr>timers := []\<rparr>)"
    by (simp add: onExit_def modify_def ex_listening_eval)
  have r: "responses (step ex_platform (onExit 0 ex_listening) (Timeout 0)) =
             [(0, 200, Envelope (timeout_envelope (IdNum 1)))]"
    unfolding e by (simp add: onTimeout_def onExit_def modify_def resolve_def ex_listening_eval)
  have w: "waiting ex_listening 0 (IdNum 1) 0"
    by (simp add: waiting_def ex_listening_eval answers_def request_timer_def)
  have q: "list_all (quiet (IdNum 1) 0) [Timeout 0]" "Timeout 0 \<in> set [Timeout 0]"
    by simp_all
  from exit_handler_effects [OF h, where P = ex_platform] w q
  have "answered (run ex_platform (onExit 0 ex_listening) [Timeout 0]) (IdNum 1) 0"
    by blast
  with exit_handler_effects [OF h, where P = ex_platform] r h w show ?thesis
    by (simp add: ex_listening_eval onExit_def modify_def Let_def)
qed

text \<open>
  C8. The claim fails on the code where it says that every request still pending at the
  exit is resolved when its own timeout fires. The exit handler is as the claim says,
  but the timers are those of C1: none is ever cleared, and a timer tests whether the
  id is in the table, not whether the entry is its own. Request 0 (id 1) is answered by
  the backend; request 1 (the same id) is posted; the child exits while request 1 is
  pending, and the exit rejects nothing. The timer of request 0 fires first, finds the
  entry of request 1 and deletes it; the timer of request 1 then finds no entry. At the
  end request 1 has no answer, and no entry and no timer is left that could answer it.
\<close>

theorem pending_at_exit_never_answered:
  "map pendingRequests (heap (run ex_platform init (take 4 ex_exit_reuse))) = [[(IdNum 1, 1)]]
   \<and> map connected (heap (run ex_platform init (take 4 ex_exit_reuse))) = [False]
   \<and> sessions (run ex_platform init (take 4 ex_exit_reuse)) = []
   \<and> answers (run ex_platform init (take 4 ex_exit_reuse)) 1 = []
   \<and> timers (run ex_platform init (take 4 ex_exit_reuse)) =
       [\<lparr>t_session = 0, t_id = IdNum 1, t_resolve = 0, t_delay = 30000\<rparr>,
        \<lparr>t_session = 0, t_id = IdNum 1, t_resolve = 1, t_delay = 30000\<rparr>]
   \<and> map pendingRequests (heap (run ex_platform init (take 5 ex_exit_reuse))) = [[]]
   \<and> answers (run ex_platform init ex_exit_reuse) 0 = [(200, Envelope ex_reply)]
   \<and> answers (run ex_platform init ex_exit_reuse) 1 = []
   \<and> timers (run ex_platform init ex_exit_reuse) = []
   \<and> map pendingRequests (heap (run ex_platform init ex_exit_reuse)) = [[]]"
proof -
  define s1 where "s1 = step ex_platform init (Post (ex_request ex_call) 0 True)"
  define s2 where "s2 = handleStdioMessage ex_platform 0 ex_reply s1"
  define s3 where "s3 = step ex_platform s2 (Post (ex_request ex_call) 1 True)"
  define s4 where "s4 = step ex_platform s3 (ProcExit 0)"
  define s5 where "s5 = step ex_platform s4 (Timeout 0)"
  define s6 where "s6 = step ex_platform s5 (Timeout 1)"
  have e1: "s1 = ex_waiting"
    by (simp add: s1_def ex_waiting_def run_def)
  have e2: "s2 = ex_waiting\<lparr>heap := [(heap ex_waiting ! 0)\<lparr>pendingRequests := []\<rparr>],
                           settled := [0], responses := [(0, 200, Envelope ex_reply)]\<rparr>"
    by (simp add: s2_def e1 ex_waiting_eval handleStdioMessage_def resolve_def modify_def
          ex_reply_def)
  have e3: "s3 = s2\<lparr>heap := [(heap ex_waiting ! 0)\<lparr>pendingRequests := [(IdNum 1, 1)]\<rparr>],
                   stdin := stdin s2 @ [(0, JSON_stringify ex_platform ex_call @ [nl])],
                   timers := timers s2 @
                     [\<lparr>t_session = 0, t_id = IdNum 1, t_resolve = 1, t_delay = 30000\<rparr>]\<rparr>"
    by (simp add: s3_def e2 ex_waiting_eval ex_request_def ex_call_def op_defs js_eq_iff)
  have e4: "s4 = s3\<lparr>heap := [(heap ex_waiting ! 0)\<lparr>pendingRequests := [(IdNum 1, 1)],
                                                      connected := False\<rparr>],
                   sessions := []\<rparr>"
    by (simp add: s4_def e3 e2 ex_waiting_eval onExit_def modify_def Let_def)
  have e5: "s5 = s4\<lparr>heap := [(heap ex_waiting ! 0)\<lparr>pendingRequests := [],
                                                      connected := False\<rparr>],
                   timers := [\<lparr>t_session = 0, t_id = IdNum 1, t_resolve = 1, t_delay = 30000\<rparr>]\<rparr>"
    by (simp add: s5_def e4 e3 e2 ex_waiting_eval onTimeout_def resolve_def modify_def)
  have e6: "s6 = s5\<lparr>timers := []\<rparr>"
    by (simp add: s6_def e5 e4 e3 e2 ex_waiting_eval onTimeout_def)
  have a2: "step ex_platform s1
              (StdoutData 0 (bytes ''{\"jsonrpc\":\"2.0\",\"id\":1,\"result\":{\"tools\":[]}}'' @ [0x0A])) = s2"
    unfolding s2_def by (rule ex_reply_arrives) (simp_all add: e1 ex_waiting_eval)
  note steps = s1_def [symmetric] a2 s3_def [symmetric] s4_def [symmetric] s5_def [symmetric]
    s6_def [symmetric]
  have p4: "take 4 ex_exit_reuse =
              [Post (ex_request ex_call) 0 True,
               StdoutData 0 (bytes ''{\"jsonrpc\":\"2.0\",\"id\":1,\"result\":{\"tools\":[]}}'' @ [0x0A]),
               Post (ex_request ex_call) 1 True, ProcExit 0]"
    and p5: "take 5 ex_exit_reuse =
              [Post (ex_request ex_call) 0 True,
               StdoutData 0 (bytes ''{\"jsonrpc\":\"2.0\",\"id\":1,\"result\":{\"tools\":[]}}'' @ [0x0A]),
               Post (ex_request ex_call) 1 True, ProcExit 0, Timeout 0]"
    by (simp_all add: ex_exit_reuse_def)
  have t4: "run ex_platform init (take 4 ex_exit_reuse) = s4"
    unfolding p4 by (simp only: run_def foldl.simps steps)
  have t5: "run ex_platform init (take 5 ex_exit_reuse) = s5"
    unfolding p5 by (simp only: run_def foldl.simps steps)
  have t6: "run ex_platform init ex_exit_reuse = s6"
    unfolding ex_exit_reuse_def by (simp only: run_def foldl.simps steps)
  show ?thesis
    unfolding t4 t5 t6 e6
    by (simp add: e5 e4 e3 e2 ex_waiting_eval answers_def)
qed

end
